theory Spec2Isabelle
  imports Main "HOL-Library.AList"
begin

section \<open>Envelope codec (utils)\<close>

text \<open>
  JavaScript strings are modelled as \<open>string\<close>, one \<open>char\<close> per code unit, so that
  \<open>length\<close> is the source's \<open>.length\<close>. JSON values are a datatype; numbers are
  integers (message timestamps are integers), objects keep their keys in insertion
  order. A value of the datatype stands for a JavaScript value when its numbers are safe
  integers and its objects have distinct keys, none of them made of digits only
  (\<open>js_value\<close> below); the printer and the parser agree with \<open>JSON.stringify\<close> and
  \<open>JSON.parse\<close> on these values.
\<close>

datatype json =
    JNull
  | JBool bool
  | JNum int
  | JStr string
  | JArr "json list"
  | JObj "(string \<times> json) list"

datatype deser_cause =
    MessageTooLarge
  | SyntaxError
  | TypeError
  | MissingOrInvalidEvent
  | InvalidEventInPayload string

datatype error =
    InvalidEventName string
  | FailedToDeserialize deser_cause
  | BackpressureLimitExceeded
  | TransportError
  | MiddlewareError string
  | InvalidUrl

subsection \<open>isValidEventName\<close>

fun startsWith :: "string \<Rightarrow> string \<Rightarrow> bool" where
  "startsWith s [] = True"
| "startsWith [] (p # ps) = False"
| "startsWith (c # cs) (p # ps) = (c = p \<and> startsWith cs ps)"

fun str_includes :: "string \<Rightarrow> string \<Rightarrow> bool" where
  "str_includes [] sub = (sub = [])"
| "str_includes (c # cs) sub = (startsWith (c # cs) sub \<or> str_includes cs sub)"

definition reservedEvents :: "string list" where
  "reservedEvents =
     [''connect'', ''disconnect'', ''error'', ''connecting'', ''reconnecting'',
      ''reconnect_failed'']"

text \<open>The \<open>typeof event !== 'string'\<close> test is discharged by the argument's type.\<close>

definition isValidEventName :: "string \<Rightarrow> bool" where
  "isValidEventName event =
     (if length event = 0 then False
      else if startsWith event ''$'' \<or> str_includes event [CHR 0x00] then False
      else event \<notin> set reservedEvents)"

subsection \<open>JSON.stringify on the modelled values\<close>

definition digit_char :: "nat \<Rightarrow> char" where
  "digit_char d =
     (if d = 0 then CHR ''0'' else if d = 1 then CHR ''1'' else if d = 2 then CHR ''2''
      else if d = 3 then CHR ''3'' else if d = 4 then CHR ''4'' else if d = 5 then CHR ''5''
      else if d = 6 then CHR ''6'' else if d = 7 then CHR ''7'' else if d = 8 then CHR ''8''
      else CHR ''9'')"

fun digits :: "nat \<Rightarrow> string" where
  "digits n = (if n < 10 then [digit_char n] else digits (n div 10) @ [digit_char (n mod 10)])"

declare digits.simps [simp del]

text \<open>The decimal text of an integer: what \<open>JSON.stringify\<close> prints for a safe integer
  (from \<open>2^53\<close> on, JavaScript numbers are no longer the integers).\<close>

definition show_int :: "int \<Rightarrow> string" where
  "show_int i = (if i < 0 then CHR ''-'' # digits (nat (- i)) else digits (nat i))"

definition hex_char :: "nat \<Rightarrow> char" where
  "hex_char d =
     (if d < 10 then digit_char d
      else if d = 10 then CHR ''a'' else if d = 11 then CHR ''b'' else if d = 12 then CHR ''c''
      else if d = 13 then CHR ''d'' else if d = 14 then CHR ''e'' else CHR ''f'')"

text \<open>String escaping of \<open>JSON.stringify\<close>: the quote, the backslash, and the control
  characters below U+0020 (short forms where JSON has them, \<open>\u00XX\<close> otherwise).\<close>

definition escape_char :: "char \<Rightarrow> string" where
  "escape_char c =
     (if c = CHR 0x22 then [CHR 0x5C, CHR 0x22]
      else if c = CHR 0x5C then [CHR 0x5C, CHR 0x5C]
      else if c = CHR 0x08 then [CHR 0x5C, CHR ''b'']
      else if c = CHR 0x0C then [CHR 0x5C, CHR ''f'']
      else if c = CHR 0x0A then [CHR 0x5C, CHR ''n'']
      else if c = CHR 0x0D then [CHR 0x5C, CHR ''r'']
      else if c = CHR 0x09 then [CHR 0x5C, CHR ''t'']
      else if of_char c < (32 :: nat)
        then [CHR 0x5C, CHR ''u'', CHR ''0'', CHR ''0'',
              hex_char (of_char c div 16), hex_char (of_char c mod 16)]
      else [c])"

definition quote :: "string \<Rightarrow> string" where
  "quote s = CHR 0x22 # concat (map escape_char s) @ [CHR 0x22]"

fun join_with :: "string \<Rightarrow> string list \<Rightarrow> string" where
  "join_with sep [] = []"
| "join_with sep [x] = x"
| "join_with sep (x # y # ys) = x @ sep @ join_with sep (y # ys)"

fun JSON_stringify :: "json \<Rightarrow> string"
  and stringify_elems :: "json list \<Rightarrow> string list"
  and stringify_members :: "(string \<times> json) list \<Rightarrow> string list" where
  "JSON_stringify JNull = ''null''"
| "JSON_stringify (JBool b) = (if b then ''true'' else ''false'')"
| "JSON_stringify (JNum n) = show_int n"
| "JSON_stringify (JStr s) = quote s"
| "JSON_stringify (JArr xs) = ''['' @ join_with '','' (stringify_elems xs) @ '']''"
| "JSON_stringify (JObj kvs) = ''{'' @ join_with '','' (stringify_members kvs) @ ''}''"
| "stringify_elems [] = []"
| "stringify_elems (x # xs) = JSON_stringify x # stringify_elems xs"
| "stringify_members [] = []"
| "stringify_members ((k, v) # kvs) = (quote k @ '':'' @ JSON_stringify v) # stringify_members kvs"

subsection \<open>Message, serializeMessage, deserializeMessage\<close>

text \<open>\<open>interface Message { event: string; data: any; id?: string; timestamp?: number }\<close>\<close>

record message =
  event :: string
  data :: json
  msg_id :: "string option"
  timestamp :: "int option"

text \<open>The object literal a sender builds: keys in the order \<open>event, data, id, timestamp\<close>,
  an absent optional key left out.\<close>

definition message_object :: "message \<Rightarrow> json" where
  "message_object m =
     JObj ([(''event'', JStr (event m)), (''data'', data m)]
           @ (case msg_id m of None \<Rightarrow> [] | Some i \<Rightarrow> [(''id'', JStr i)])
           @ (case timestamp m of None \<Rightarrow> [] | Some t \<Rightarrow> [(''timestamp'', JNum t)]))"

text \<open>Every value of type \<open>json\<close> is serializable, so the \<open>catch\<close> of
  \<open>serializeMessage\<close> (cyclic structures, BigInt) has no input in the model.\<close>

definition serializeMessage :: "message \<Rightarrow> string" where
  "serializeMessage m = JSON_stringify (message_object m)"

text \<open>JavaScript truthiness of a parsed JSON value.\<close>

fun truthy :: "json \<Rightarrow> bool" where
  "truthy JNull = False"
| "truthy (JBool b) = b"
| "truthy (JNum n) = (n \<noteq> 0)"
| "truthy (JStr s) = (s \<noteq> [])"
| "truthy (JArr xs) = True"
| "truthy (JObj kvs) = True"

text \<open>Property read \<open>parsed.k\<close>: a \<open>TypeError\<close> on \<open>null\<close>, \<open>undefined\<close> (\<open>None\<close>) on a
  primitive, an array, or an object without the key.\<close>

fun get_prop :: "json \<Rightarrow> string \<Rightarrow> error + json option" where
  "get_prop JNull k = Inl (FailedToDeserialize TypeError)"
| "get_prop (JObj kvs) k = Inr (map_of kvs k)"
| "get_prop v k = Inr None"

text \<open>Property write \<open>parsed.k = v\<close> on an object: an existing key keeps its place.\<close>

fun set_prop :: "json \<Rightarrow> string \<Rightarrow> json \<Rightarrow> json" where
  "set_prop (JObj kvs) k v = JObj (AList.update k v kvs)"
| "set_prop j k v = j"

fun isArray :: "json option \<Rightarrow> bool" where
  "isArray (Some (JArr xs)) = True"
| "isArray v = False"

text \<open>\<open>parsed.data ? [parsed.data] : []\<close>\<close>

fun wrap_data :: "json option \<Rightarrow> json" where
  "wrap_data None = JArr []"
| "wrap_data (Some d) = (if truthy d then JArr [d] else JArr [])"

definition max_message_length :: nat where
  "max_message_length = 1024 * 1024"

text \<open>
  \<open>deserializeMessage\<close>. \<open>JSON.parse\<close> is the platform's parser and enters as the
  parameter \<open>JSON_parse\<close> (\<open>None\<close> when it throws a \<open>SyntaxError\<close>); the parser
  \<open>JSON_parse_model\<close> defined below is put in its place where an encoding is decoded.
  Every failure leaves through the \<open>catch\<close> as "Failed to deserialize message".
\<close>

definition deserializeMessage :: "(string \<Rightarrow> json option) \<Rightarrow> string \<Rightarrow> error + json" where
  "deserializeMessage JSON_parse text =
     (if length text > max_message_length then Inl (FailedToDeserialize MessageTooLarge)
      else case JSON_parse text of
        None \<Rightarrow> Inl (FailedToDeserialize SyntaxError)
      | Some parsed \<Rightarrow>
          (case get_prop parsed ''event'' of
             Inl e \<Rightarrow> Inl e
           | Inr None \<Rightarrow> Inl (FailedToDeserialize MissingOrInvalidEvent)
           | Inr (Some (JStr ev)) \<Rightarrow>
               if \<not> truthy (JStr ev) then Inl (FailedToDeserialize MissingOrInvalidEvent)
               else if \<not> isValidEventName ev
                 then Inl (FailedToDeserialize (InvalidEventInPayload ev))
               else (case get_prop parsed ''data'' of
                       Inl e \<Rightarrow> Inl e
                     | Inr d \<Rightarrow>
                         if \<not> isArray d then Inr (set_prop parsed ''data'' (wrap_data d))
                         else Inr parsed)
           | Inr (Some other) \<Rightarrow> Inl (FailedToDeserialize MissingOrInvalidEvent)))"

subsection \<open>JSON.parse on the modelled values\<close>

text \<open>
  The parser follows the JSON grammar: white space between tokens, the three literals,
  strings with their escapes, numbers, arrays and objects. Two kinds of text are outside
  the datatype and are read as a failure: a number with a fraction or an exponent, and a
  \<open>\u\<close> escape above \<open>\u00FF\<close>.
\<close>

definition is_ws :: "char \<Rightarrow> bool" where
  "is_ws c = (c = CHR '' '' \<or> c = CHR 0x09 \<or> c = CHR 0x0A \<or> c = CHR 0x0D)"

definition skip_ws :: "string \<Rightarrow> string" where
  "skip_ws s = dropWhile is_ws s"

definition is_digit :: "char \<Rightarrow> bool" where
  "is_digit c = (c \<in> set ''0123456789'')"

definition digit_val :: "char \<Rightarrow> nat" where
  "digit_val c = of_char c - 48"


definition hex_val :: "char \<Rightarrow> nat option" where
  "hex_val c =
     (if is_digit c then Some (digit_val c)
      else if c = CHR ''a'' \<or> c = CHR ''A'' then Some 10
      else if c = CHR ''b'' \<or> c = CHR ''B'' then Some 11
      else if c = CHR ''c'' \<or> c = CHR ''C'' then Some 12
      else if c = CHR ''d'' \<or> c = CHR ''D'' then Some 13
      else if c = CHR ''e'' \<or> c = CHR ''E'' then Some 14
      else if c = CHR ''f'' \<or> c = CHR ''F'' then Some 15
      else None)"


text \<open>The four hexadecimal digits after \<open>\u\<close>.\<close>

definition unicode_escape :: "string \<Rightarrow> (char \<times> string) option" where
  "unicode_escape s =
     (case s of
        h1 # h2 # h3 # h4 # rest \<Rightarrow>
          (case (hex_val h1, hex_val h2, hex_val h3, hex_val h4) of
             (Some a, Some b, Some c, Some d) \<Rightarrow>
               if a = 0 \<and> b = 0 then Some (char_of (16 * c + d), rest) else None
           | _ \<Rightarrow> None)
      | _ \<Rightarrow> None)"






text \<open>What may follow a value inside a text: nothing, a comma or a closing bracket.\<close>

definition delimited :: "string \<Rightarrow> bool" where
  "delimited rest = (case rest of [] \<Rightarrow> True | c # cs \<Rightarrow> c = CHR '','' \<or> c = CHR '']'' \<or> c = CHR ''}'')"





text \<open>The \<open>data\<close> member of a decoded message.\<close>

definition data_of :: "json \<Rightarrow> json option" where
  "data_of m = (case m of JObj kvs \<Rightarrow> map_of kvs ''data'' | _ \<Rightarrow> None)"

text \<open>Sample inputs: a parser that knows the text of one value only, a payload with a
  given \<open>data\<close> member, a small message, one with the bare \<open>data\<close> \<open>0\<close> and one whose
  encoding is longer than 1 MiB.\<close>

definition parse_only :: "json \<Rightarrow> string \<Rightarrow> json option" where
  "parse_only j text = (if text = JSON_stringify j then Some j else None)"

definition payload :: "json \<Rightarrow> json" where
  "payload d = JObj [(''event'', JStr ''x''), (''data'', d)]"




section \<open>Server: connections, rooms, broadcast, middleware\<close>

text \<open>
  A JavaScript \<open>Set\<close> is a list without repetition in insertion order, a \<open>Map\<close> an
  association list in insertion order (\<open>AList.update\<close> is \<open>Map.set\<close>,
  \<open>AList.delete\<close> is \<open>Map.delete\<close>).
\<close>

definition set_add :: "'a \<Rightarrow> 'a list \<Rightarrow> 'a list" where
  "set_add x xs = (if x \<in> set xs then xs else xs @ [x])"

definition set_delete :: "'a \<Rightarrow> 'a list \<Rightarrow> 'a list" where
  "set_delete x xs = removeAll x xs"

text \<open>
  The transport channel (the uWebSockets socket behind \<open>connection.ws\<close>): its buffered
  byte count, the frames handed to \<open>send\<close>, whether it was closed, and whether \<open>send\<close>
  raises a transport error. \<open>close\<close> is taken to succeed.
\<close>

record channel =
  bufferedAmount :: nat
  sent :: "string list"
  closed :: bool
  send_throws :: bool

definition ws_send :: "channel \<Rightarrow> string \<Rightarrow> error + channel" where
  "ws_send w buffer = (if send_throws w then Inl TransportError else Inr (w\<lparr>sent := sent w @ [buffer]\<rparr>))"

definition ws_close :: "channel \<Rightarrow> channel" where
  "ws_close w = w\<lparr>closed := True\<rparr>"

text \<open>What \<open>super.emit\<close> of a connection delivers to its local listeners.\<close>

datatype conn_event = NJoin string | NLeave string | NDisconnect | NError error

record connection =
  conn_id :: string
  ws :: channel
  conn_rooms :: "string list"
  notified :: "conn_event list"

record room =
  room_name :: string
  sockets :: "string list"

text \<open>What the server's \<open>emit\<close> hands to \<open>super.emit\<close>; connections are named by their
  reference in the object store.\<close>

datatype server_event =
    EvConnection nat
  | EvDisconnect nat nat
  | EvError error
  | EvClose

text \<open>
  The server. \<open>connections\<close> maps a socket id to a reference; the connection objects
  live in \<open>heap\<close>, so that an object the registry has dropped can still be used by its
  holder. \<open>next_ref\<close> is the allocation counter of the store.
\<close>

record server =
  connections :: "(string \<times> nat) list"
  rooms :: "(string \<times> room) list"
  maxBackpressure :: nat
  heap :: "nat \<Rightarrow> connection option"
  next_ref :: nat
  emitted :: "server_event list"

text \<open>\<open>maxBackpressure: options.maxBackpressure || 64 * 1024\<close>\<close>

definition new_server :: "nat option \<Rightarrow> server" where
  "new_server opt =
     \<lparr>connections = [], rooms = [],
      maxBackpressure = (case opt of None \<Rightarrow> 64 * 1024 | Some n \<Rightarrow> if n = 0 then 64 * 1024 else n),
      heap = (\<lambda>r. None), next_ref = 0, emitted = []\<rparr>"

definition server_emit :: "server_event \<Rightarrow> server \<Rightarrow> server" where
  "server_emit ev s = s\<lparr>emitted := emitted s @ [ev]\<rparr>"

definition notify :: "nat \<Rightarrow> conn_event \<Rightarrow> server \<Rightarrow> server" where
  "notify r ev s =
     (case heap s r of
        None \<Rightarrow> s
      | Some c \<Rightarrow> s\<lparr>heap := (heap s)(r \<mapsto> c\<lparr>notified := notified c @ [ev]\<rparr>)\<rparr>)"

subsection \<open>Room directory\<close>

definition joinRoom :: "string \<Rightarrow> string \<Rightarrow> server \<Rightarrow> server" where
  "joinRoom socketId roomName s =
     (let room = (case map_of (rooms s) roomName of
                    None \<Rightarrow> \<lparr>room_name = roomName, sockets = []\<rparr>
                  | Some r \<Rightarrow> r)
      in s\<lparr>rooms := AList.update roomName (room\<lparr>sockets := set_add socketId (sockets room)\<rparr>) (rooms s)\<rparr>)"

definition leaveRoom :: "string \<Rightarrow> string \<Rightarrow> server \<Rightarrow> server" where
  "leaveRoom socketId roomName s =
     (case map_of (rooms s) roomName of
        None \<Rightarrow> s
      | Some r \<Rightarrow>
          (let room = r\<lparr>sockets := set_delete socketId (sockets r)\<rparr>
           in if length (sockets room) = 0
              then s\<lparr>rooms := AList.delete roomName (rooms s)\<rparr>
              else s\<lparr>rooms := AList.update roomName room (rooms s)\<rparr>))"

text \<open>The \<open>forEach\<close> of \<open>removeConnection\<close>: each entry whose member set is empty is
  deleted from the directory by its key.\<close>

fun delete_empty_rooms :: "(string \<times> room) list \<Rightarrow> (string \<times> room) list \<Rightarrow> (string \<times> room) list" where
  "delete_empty_rooms [] acc = acc"
| "delete_empty_rooms ((roomName, r) # rest) acc =
     delete_empty_rooms rest (if length (sockets r) = 0 then AList.delete roomName acc else acc)"

definition removeConnection :: "string \<Rightarrow> server \<Rightarrow> server" where
  "removeConnection socketId s =
     (let rs = map (\<lambda>(roomName, r). (roomName, r\<lparr>sockets := set_delete socketId (sockets r)\<rparr>)) (rooms s)
      in s\<lparr>connections := AList.delete socketId (connections s),
            rooms := delete_empty_rooms rs rs\<rparr>)"

text \<open>The member set of a room name: empty when the directory has no such room.\<close>

definition members :: "server \<Rightarrow> string \<Rightarrow> string list" where
  "members s roomName = (case map_of (rooms s) roomName of None \<Rightarrow> [] | Some r \<Rightarrow> sockets r)"

subsection \<open>NanoSocketConnection\<close>

definition conn_join :: "nat \<Rightarrow> string \<Rightarrow> server \<Rightarrow> server" where
  "conn_join r roomName s =
     (case heap s r of
        None \<Rightarrow> s
      | Some c \<Rightarrow>
          if roomName \<notin> set (conn_rooms c)
          then notify r (NJoin roomName)
                 (joinRoom (conn_id c) roomName
                    (s\<lparr>heap := (heap s)(r \<mapsto> c\<lparr>conn_rooms := set_add roomName (conn_rooms c)\<rparr>)\<rparr>))
          else s)"

definition conn_leave :: "nat \<Rightarrow> string \<Rightarrow> server \<Rightarrow> server" where
  "conn_leave r roomName s =
     (case heap s r of
        None \<Rightarrow> s
      | Some c \<Rightarrow>
          if roomName \<in> set (conn_rooms c)
          then notify r (NLeave roomName)
                 (leaveRoom (conn_id c) roomName
                    (s\<lparr>heap := (heap s)(r \<mapsto> c\<lparr>conn_rooms := set_delete roomName (conn_rooms c)\<rparr>)\<rparr>))
          else s)"

text \<open>\<open>send\<close>: the ceiling is the literal \<open>64 * 1024\<close>; a transport error and an
  exceeded ceiling both end as a local \<open>error\<close> notification.\<close>

definition conn_send :: "nat \<Rightarrow> string \<Rightarrow> server \<Rightarrow> server" where
  "conn_send r payload_text s =
     (case heap s r of
        None \<Rightarrow> s
      | Some c \<Rightarrow>
          if bufferedAmount (ws c) < 64 * 1024
          then (case ws_send (ws c) payload_text of
                  Inr w \<Rightarrow> s\<lparr>heap := (heap s)(r \<mapsto> c\<lparr>ws := w\<rparr>)\<rparr>
                | Inl e \<Rightarrow> notify r (NError e) s)
          else notify r (NError BackpressureLimitExceeded) s)"

text \<open>\<open>emit\<close> of a connection. The fresh message id and the clock reading are arguments.
  The first component of the result is the exception that escapes, if any.\<close>

definition conn_emit :: "nat \<Rightarrow> string \<Rightarrow> json list \<Rightarrow> string \<Rightarrow> int \<Rightarrow> server \<Rightarrow> error option \<times> server" where
  "conn_emit r ev args fresh_id now s =
     (if \<not> isValidEventName ev then (Some (InvalidEventName ev), s)
      else (None, conn_send r (serializeMessage
              \<lparr>event = ev, data = JArr args, msg_id = Some fresh_id, timestamp = Some now\<rparr>) s))"

definition leave_all :: "string \<Rightarrow> string list \<Rightarrow> server \<Rightarrow> server" where
  "leave_all socketId rs s = foldl (\<lambda>acc roomName. leaveRoom socketId roomName acc) s rs"

definition conn_disconnect :: "nat \<Rightarrow> server \<Rightarrow> server" where
  "conn_disconnect r s =
     (case heap s r of
        None \<Rightarrow> s
      | Some c \<Rightarrow>
          (let s1 = leave_all (conn_id c) (conn_rooms c) s
           in s1\<lparr>heap := (heap s1)(r \<mapsto>
                 c\<lparr>conn_rooms := [], ws := ws_close (ws c), notified := notified c @ [NDisconnect]\<rparr>)\<rparr>))"

subsection \<open>Broadcast\<close>

text \<open>
  The fan-out loop of \<open>broadcast\<close> over \<open>connections.values()\<close>. A channel at or above
  \<open>maxBackpressure\<close> is passed over; there is no \<open>else\<close> branch. In the \<open>catch\<close>,
  \<open>connection.emit('error', error)\<close> is the connection's own \<open>emit\<close>, which rejects
  the reserved name \<open>error\<close>: that exception leaves the loop.
\<close>

fun broadcast_loop :: "string \<Rightarrow> nat list \<Rightarrow> server \<Rightarrow> error option \<times> server" where
  "broadcast_loop buffer [] s = (None, s)"
| "broadcast_loop buffer (r # rest) s =
     (case heap s r of
        None \<Rightarrow> broadcast_loop buffer rest s
      | Some c \<Rightarrow>
          if bufferedAmount (ws c) < maxBackpressure s
          then (case ws_send (ws c) buffer of
                  Inr w \<Rightarrow> broadcast_loop buffer rest (s\<lparr>heap := (heap s)(r \<mapsto> c\<lparr>ws := w\<rparr>)\<rparr>)
                | Inl e \<Rightarrow>
                    (case conn_emit r ''error'' [] [] 0 s of
                       (Some e', s') \<Rightarrow> (Some e', s')
                     | (None, s') \<Rightarrow> broadcast_loop buffer rest s'))
          else broadcast_loop buffer rest s)"

definition broadcast :: "string \<Rightarrow> json list \<Rightarrow> int \<Rightarrow> server \<Rightarrow> error option \<times> server" where
  "broadcast ev args now s =
     (if \<not> isValidEventName ev then (Some (InvalidEventName ev), s)
      else broadcast_loop
             (serializeMessage \<lparr>event = ev, data = JArr args, msg_id = None, timestamp = Some now\<rparr>)
             (map snd (connections s)) s)"

text \<open>The loop of \<open>broadcastToRoom\<close> over the room's member ids, each resolved through
  the registry.\<close>

fun room_loop :: "string \<Rightarrow> string list \<Rightarrow> server \<Rightarrow> error option \<times> server" where
  "room_loop buffer [] s = (None, s)"
| "room_loop buffer (socketId # rest) s =
     (case map_of (connections s) socketId of
        None \<Rightarrow> room_loop buffer rest s
      | Some r \<Rightarrow>
          (case heap s r of
             None \<Rightarrow> room_loop buffer rest s
           | Some c \<Rightarrow>
               if bufferedAmount (ws c) < maxBackpressure s
               then (case ws_send (ws c) buffer of
                       Inr w \<Rightarrow> room_loop buffer rest (s\<lparr>heap := (heap s)(r \<mapsto> c\<lparr>ws := w\<rparr>)\<rparr>)
                     | Inl e \<Rightarrow>
                         (case conn_emit r ''error'' [] [] 0 s of
                            (Some e', s') \<Rightarrow> (Some e', s')
                          | (None, s') \<Rightarrow> room_loop buffer rest s'))
               else room_loop buffer rest s))"

definition broadcastToRoom :: "string \<Rightarrow> string \<Rightarrow> json list \<Rightarrow> int \<Rightarrow> server \<Rightarrow> error option \<times> server" where
  "broadcastToRoom roomName ev args now s =
     (case map_of (rooms s) roomName of
        None \<Rightarrow> (None, s)
      | Some r \<Rightarrow>
          if length (sockets r) = 0 then (None, s)
          else room_loop
                 (serializeMessage \<lparr>event = ev, data = JArr args, msg_id = None, timestamp = Some now\<rparr>)
                 (sockets r) s)"

subsection \<open>Accepting and dropping connections\<close>

text \<open>
  A middleware is application code; the model keeps how it uses its continuation:
  \<open>next()\<close>, \<open>next(err)\<close> with an \<open>Error\<close> (always truthy), or never.
\<close>

datatype mw_outcome = CallsNext | CallsNextWith string | NeverCalls

type_synonym middleware = "connection \<Rightarrow> mw_outcome"

datatype promise = Resolved | Rejected error | Pending

text \<open>\<open>runMiddlewares\<close>; the second component counts the middleware that were invoked.\<close>

fun runMiddlewares :: "middleware list \<Rightarrow> connection \<Rightarrow> promise \<times> nat" where
  "runMiddlewares [] socket = (Resolved, 0)"
| "runMiddlewares (mw # rest) socket =
     (case mw socket of
        CallsNext \<Rightarrow> (case runMiddlewares rest socket of (p, n) \<Rightarrow> (p, Suc n))
      | CallsNextWith err \<Rightarrow> (Rejected (MiddlewareError err), 1)
      | NeverCalls \<Rightarrow> (Pending, 1))"

definition new_connection :: "string \<Rightarrow> channel \<Rightarrow> connection" where
  "new_connection socketId w = \<lparr>conn_id = socketId, ws = w, conn_rooms = [], notified = []\<rparr>"

text \<open>\<open>handleConnection\<close>; the generated id is an argument.\<close>

definition handleConnection :: "middleware list \<Rightarrow> string \<Rightarrow> channel \<Rightarrow> server \<Rightarrow> server" where
  "handleConnection middlewares socketId w s =
     (let r = next_ref s;
          connection = new_connection socketId w;
          s1 = s\<lparr>connections := AList.update socketId r (connections s),
                 heap := (heap s)(r \<mapsto> connection),
                 next_ref := Suc r\<rparr>
      in case fst (runMiddlewares middlewares connection) of
           Resolved \<Rightarrow> server_emit (EvConnection r) s1
         | Rejected err \<Rightarrow> server_emit (EvError err) (conn_disconnect r s1)
         | Pending \<Rightarrow> s1)"

text \<open>The transport's close callback; the socket is found by the id in its user data.\<close>

definition handleDisconnection :: "string \<Rightarrow> nat \<Rightarrow> server \<Rightarrow> server" where
  "handleDisconnection socketId code s =
     (case map_of (connections s) socketId of
        None \<Rightarrow> s
      | Some r \<Rightarrow>
          (case heap s r of
             None \<Rightarrow> s
           | Some c \<Rightarrow> server_emit (EvDisconnect r code) (removeConnection (conn_id c) s)))"

definition server_close :: "server \<Rightarrow> server" where
  "server_close s =
     server_emit EvClose
       ((foldl (\<lambda>acc r. conn_disconnect r acc) s (map snd (connections s)))
          \<lparr>connections := [], rooms := []\<rparr>)"

text \<open>The states a server can be in: from a fresh server, by accepting connections, by
  the room operations of the server and of its connection objects, by sends and
  broadcasts, by dropping connections and by closing.\<close>

inductive reachable :: "server \<Rightarrow> bool" where
  r_new: "reachable (new_server opt)"
| r_accept: "reachable s \<Longrightarrow> reachable (handleConnection middlewares socketId w s)"
| r_joinRoom: "reachable s \<Longrightarrow> reachable (joinRoom socketId roomName s)"
| r_leaveRoom: "reachable s \<Longrightarrow> reachable (leaveRoom socketId roomName s)"
| r_join: "reachable s \<Longrightarrow> reachable (conn_join r roomName s)"
| r_leave: "reachable s \<Longrightarrow> reachable (conn_leave r roomName s)"
| r_disconnect: "reachable s \<Longrightarrow> reachable (conn_disconnect r s)"
| r_remove: "reachable s \<Longrightarrow> reachable (removeConnection socketId s)"
| r_dropped: "reachable s \<Longrightarrow> reachable (handleDisconnection socketId code s)"
| r_emit: "reachable s \<Longrightarrow> reachable (snd (conn_emit r ev args fresh_id now s))"
| r_broadcast: "reachable s \<Longrightarrow> reachable (snd (broadcast ev args now s))"
| r_room_broadcast: "reachable s \<Longrightarrow> reachable (snd (broadcastToRoom roomName ev args now s))"
| r_close: "reachable s \<Longrightarrow> reachable (server_close s)"

text \<open>The directory never holds a room whose member set is empty.\<close>

definition no_empty_room :: "server \<Rightarrow> bool" where
  "no_empty_room s = list_all (\<lambda>(roomName, r). sockets r \<noteq> []) (rooms s)"

text \<open>Sample states: a server that accepted one connection, which then joined a room.\<close>

definition idle_channel :: channel where
  "idle_channel = \<lparr>bufferedAmount = 0, sent = [], closed = False, send_throws = False\<rparr>"

definition accepted_server :: server where
  "accepted_server = handleConnection [] ''a'' idle_channel (new_server None)"

definition lobby_server :: server where
  "lobby_server = conn_join 0 ''lobby'' accepted_server"

text \<open>Sample states for the backpressure policy: a connection whose channel holds exactly
  the default ceiling, and a server configured with a ceiling of 1024 bytes whose
  connection holds 2000.\<close>

definition congested_channel :: channel where
  "congested_channel = \<lparr>bufferedAmount = 65536, sent = [], closed = False, send_throws = False\<rparr>"

definition congested_server :: server where
  "congested_server = handleConnection [] ''a'' congested_channel (new_server None)"

definition busy_channel :: channel where
  "busy_channel = \<lparr>bufferedAmount = 2000, sent = [], closed = False, send_throws = False\<rparr>"

definition small_ceiling_server :: server where
  "small_ceiling_server = handleConnection [] ''a'' busy_channel (new_server (Some 1024))"

text \<open>A chain of three middleware: the second aborts.\<close>

definition gate_chain :: "middleware list" where
  "gate_chain = [\<lambda>socket. CallsNext, \<lambda>socket. CallsNextWith ''denied'', \<lambda>socket. NeverCalls]"

text \<open>Every connection that was announced by a \<open>connection\<close> event has a reference
  below the allocation counter.\<close>

definition announced_below :: "server \<Rightarrow> bool" where
  "announced_below s =
     list_all (\<lambda>ev. case ev of EvConnection r \<Rightarrow> r < next_ref s | _ \<Rightarrow> True) (emitted s)"

section \<open>Client\<close>

datatype ConnectionState = DISCONNECTED | CONNECTING | CONNECTED | RECONNECTING

text \<open>\<open>ClientOptions\<close>: every field is optional.\<close>

record client_options =
  opt_autoConnect :: "bool option"
  opt_reconnection :: "bool option"
  opt_reconnectionAttempts :: "nat option"
  opt_reconnectionDelay :: "nat option"
  opt_timeout :: "nat option"

text \<open>
  The client. \<open>transport\<close> is \<open>this.ws\<close>: the serial number of the connection
  it holds, if any; \<open>sockets_opened\<close> counts the \<open>new WebSocket\<close> calls; \<open>url_ok\<close> says
  whether \<open>new WebSocket(url)\<close> returns rather than throws. \<open>wire\<close> lists what was
  handed to \<open>ws.send\<close>, with the connection it went to; \<open>delivered\<close> lists what
  \<open>super.emit\<close> handed to the local listeners. The connect timeout, the \<open>onerror\<close>
  and \<open>onmessage\<close> callbacks and the handler table are not part of the model.
\<close>

record client =
  state :: ConnectionState
  transport :: "nat option"
  sockets_opened :: nat
  url_ok :: bool
  reconnection :: bool
  reconnectionAttempts :: nat
  reconnectionDelay :: nat
  timeout_ms :: nat
  reconnectAttempts :: nat
  reconnectTimer :: "nat option"
  messageQueue :: "string list"
  wire :: "(nat \<times> string) list"
  delivered :: "(string \<times> json list) list"

text \<open>\<open>emit\<close> of the client: the five names of its first test go to the local listeners;
  any other name is validated and sent, or queued while not connected.\<close>

definition passed_to_listeners :: "string list" where
  "passed_to_listeners = [''connect'', ''disconnect'', ''error'', ''connecting'', ''reconnecting'']"

definition client_emit :: "string \<Rightarrow> json list \<Rightarrow> string \<Rightarrow> int \<Rightarrow> client \<Rightarrow> error option \<times> client" where
  "client_emit ev args fresh_id now c =
     (if ev \<in> set passed_to_listeners then (None, c\<lparr>delivered := delivered c @ [(ev, args)]\<rparr>)
      else if \<not> isValidEventName ev then (Some (InvalidEventName ev), c)
      else (let serialized = serializeMessage
                   \<lparr>event = ev, data = JArr args, msg_id = Some fresh_id, timestamp = Some now\<rparr>
            in case transport c of
                 Some w \<Rightarrow>
                   if state c = CONNECTED then (None, c\<lparr>wire := wire c @ [(w, serialized)]\<rparr>)
                   else (None, c\<lparr>messageQueue := messageQueue c @ [serialized]\<rparr>)
               | None \<Rightarrow> (None, c\<lparr>messageQueue := messageQueue c @ [serialized]\<rparr>)))"

text \<open>\<open>this.emit(...)\<close> from inside the class: the message id and the clock are read only
  on the path that serializes, and are fixed here.\<close>

definition this_emit :: "string \<Rightarrow> json list \<Rightarrow> client \<Rightarrow> error option \<times> client" where
  "this_emit ev args c = client_emit ev args [] 0 c"

text \<open>\<open>connect\<close>: the promise is resolved at once, rejected at once (the constructor of
  the socket threw), or left pending for the transport's callbacks.\<close>

definition connect :: "client \<Rightarrow> promise \<times> client" where
  "connect c =
     (if state c = CONNECTED \<or> state c = CONNECTING then (Resolved, c)
      else (let c1 = snd (this_emit ''connecting'' [] (c\<lparr>state := CONNECTING\<rparr>))
            in if url_ok c1
               then (Pending, c1\<lparr>transport := Some (sockets_opened c1),
                                  sockets_opened := Suc (sockets_opened c1)\<rparr>)
               else (Rejected InvalidUrl,
                     snd (this_emit ''error'' [JStr ''Invalid URL''] (c1\<lparr>state := DISCONNECTED\<rparr>)))))"

text \<open>\<open>flushMessageQueue\<close>: the \<open>while\<close> loop shifts one message per turn and sends it
  unless it is the empty string.\<close>

function flushMessageQueue :: "client \<Rightarrow> client" where
  "flushMessageQueue c =
     (case (messageQueue c, transport c) of
        (message # rest, Some w) \<Rightarrow>
          if state c = CONNECTED
          then flushMessageQueue
                 (if message \<noteq> [] then c\<lparr>messageQueue := rest, wire := wire c @ [(w, message)]\<rparr>
                  else c\<lparr>messageQueue := rest\<rparr>)
          else c
      | _ \<Rightarrow> c)"
  by pat_completeness auto
termination
  by (relation "measure (\<lambda>c. length (messageQueue c))")
     (auto, (metis length_Cons lessI)+)

declare flushMessageQueue.simps [simp del]

text \<open>The \<open>onopen\<close> callback.\<close>

definition on_open :: "client \<Rightarrow> client" where
  "on_open c =
     flushMessageQueue (snd (this_emit ''connect'' [] (c\<lparr>state := CONNECTED, reconnectAttempts := 0\<rparr>)))"

definition attemptReconnection :: "client \<Rightarrow> client" where
  "attemptReconnection c =
     (let c1 = c\<lparr>state := RECONNECTING, reconnectAttempts := Suc (reconnectAttempts c)\<rparr>;
          c2 = snd (this_emit ''reconnecting'' [JNum (int (reconnectAttempts c1))] c1)
      in c2\<lparr>reconnectTimer := Some (reconnectionDelay c2 * reconnectAttempts c2)\<rparr>)"

text \<open>\<open>handleDisconnection\<close> of the client (the \<open>onclose\<close> callback). The first
  component of the result is the exception that escapes, if any.\<close>

definition client_handleDisconnection :: "nat \<Rightarrow> string \<Rightarrow> client \<Rightarrow> error option \<times> client" where
  "client_handleDisconnection code reason c =
     (let c1 = c\<lparr>state := DISCONNECTED, transport := None\<rparr>;
          c2 = snd (this_emit ''disconnect''
                      [JStr (if reason \<noteq> [] then reason else ''Connection closed'')] c1)
      in if reconnection c2 \<and> reconnectAttempts c2 < reconnectionAttempts c2 \<and> code \<noteq> 1000
         then (None, attemptReconnection c2)
         else if reconnectAttempts c2 \<ge> reconnectionAttempts c2
         then this_emit ''reconnect_failed'' [] c2
         else (None, c2))"

text \<open>The callback of the reconnect timer: \<open>this.connect().catch(...)\<close>.\<close>

definition reconnect_timer_fires :: "client \<Rightarrow> error option \<times> client" where
  "reconnect_timer_fires c =
     (case connect c of
        (Rejected e, c1) \<Rightarrow>
          if reconnectAttempts c1 \<ge> reconnectionAttempts c1
          then this_emit ''reconnect_failed'' [] c1
          else (None, c1)
      | (p, c1) \<Rightarrow> (None, c1))"

definition client_disconnect :: "client \<Rightarrow> client" where
  "client_disconnect c =
     snd (this_emit ''disconnect'' [JStr ''client disconnect'']
            (c\<lparr>reconnection := False, reconnectTimer := None, state := DISCONNECTED\<rparr>))"

text \<open>\<open>options.x || d\<close> on a number: absent and \<open>0\<close> give the default.\<close>

definition or_default :: "nat option \<Rightarrow> nat \<Rightarrow> nat" where
  "or_default v d = (case v of None \<Rightarrow> d | Some n \<Rightarrow> if n = 0 then d else n)"

definition new_client :: "bool \<Rightarrow> client_options \<Rightarrow> client" where
  "new_client valid_url options =
     (let c = \<lparr>state = DISCONNECTED, transport = None, sockets_opened = 0, url_ok = valid_url,
                reconnection = (opt_reconnection options \<noteq> Some False),
                reconnectionAttempts = or_default (opt_reconnectionAttempts options) 5,
                reconnectionDelay = or_default (opt_reconnectionDelay options) 1000,
                timeout_ms = or_default (opt_timeout options) 20000,
                reconnectAttempts = 0, reconnectTimer = None, messageQueue = [], wire = [],
                delivered = []\<rparr>
      in if opt_autoConnect options \<noteq> Some False then snd (connect c) else c)"

text \<open>What can happen to a client, and a run of such inputs that stops at the first
  exception.\<close>

datatype client_input =
    Connects
  | Disconnects
  | Emits string "json list" string int
  | TransportOpens
  | TransportCloses nat string
  | TimerFires

fun client_step :: "client_input \<Rightarrow> client \<Rightarrow> error option \<times> client" where
  "client_step Connects c = (None, snd (connect c))"
| "client_step Disconnects c = (None, client_disconnect c)"
| "client_step (Emits ev args fresh_id now) c = client_emit ev args fresh_id now c"
| "client_step TransportOpens c = (None, on_open c)"
| "client_step (TransportCloses code reason) c = client_handleDisconnection code reason c"
| "client_step TimerFires c = reconnect_timer_fires c"

fun client_run :: "client_input list \<Rightarrow> client \<Rightarrow> error option \<times> client" where
  "client_run [] c = (None, c)"
| "client_run (i # rest) c =
     (case client_step i c of
        (Some e, c') \<Rightarrow> (Some e, c')
      | (None, c') \<Rightarrow> client_run rest c')"

text \<open>The states a client can be in.\<close>

inductive client_reachable :: "client \<Rightarrow> bool" where
  c_new: "client_reachable (new_client valid_url options)"
| c_step: "client_reachable c \<Longrightarrow> client_reachable (snd (client_step i c))"

text \<open>The scenario of a client with \<open>reconnectionAttempts = 2\<close> and
  \<open>reconnectionDelay = 100\<close> whose every transport connection is closed with code 1006,
  and a client that queued two messages while connecting.\<close>

definition flaky_options :: client_options where
  "flaky_options = \<lparr>opt_autoConnect = None, opt_reconnection = None,
                     opt_reconnectionAttempts = Some 2, opt_reconnectionDelay = Some 100,
                     opt_timeout = None\<rparr>"

definition flaky_client :: client where
  "flaky_client = new_client True flaky_options"

definition always_closed :: "client_input list" where
  "always_closed = [TransportCloses 1006 [], TimerFires, TransportCloses 1006 [], TimerFires,
                    TransportCloses 1006 []]"

text \<open>Two facts of every client state: no queued message is the empty string, and the
  listeners were only ever handed the five names that \<open>emit\<close> passes on.\<close>

definition queue_nonempty :: "client \<Rightarrow> bool" where
  "queue_nonempty c = list_all (\<lambda>m. m \<noteq> []) (messageQueue c)"

definition only_passed :: "client \<Rightarrow> bool" where
  "only_passed c = list_all (\<lambda>(ev, args). ev \<in> set passed_to_listeners) (delivered c)"

definition client_ok :: "client \<Rightarrow> bool" where
  "client_ok c = (queue_nonempty c \<and> only_passed c)"

definition queued_client :: client where
  "queued_client =
     snd (client_step (Emits ''y'' [] ''i2'' 11)
       (snd (client_step (Emits ''x'' [JNum 1] ''i1'' 10) flaky_client)))"

text \<open>The client after a list of inputs (an exception raised in a callback leaves the
  object as it was at the throw), and the envelopes that the emits among the inputs
  encode, in order.\<close>

definition client_after :: "client_input list \<Rightarrow> client \<Rightarrow> client" where
  "client_after ins c = foldl (\<lambda>acc i. snd (client_step i acc)) c ins"

fun queued_by :: "client_input list \<Rightarrow> string list" where
  "queued_by [] = []"
| "queued_by (Emits ev args fresh_id now # rest) =
     (if isValidEventName ev
      then [serializeMessage \<lparr>event = ev, data = JArr args, msg_id = Some fresh_id, timestamp = Some now\<rparr>]
      else []) @ queued_by rest"
| "queued_by (i # rest) = queued_by rest"

text \<open>The scenario of a client built with \<open>autoConnect: false\<close> that emits \<open>x\<close> while
  disconnected, connects, and emits \<open>y\<close> while connecting.\<close>

definition manual_options :: client_options where
  "manual_options = \<lparr>opt_autoConnect = Some False, opt_reconnection = None,
                      opt_reconnectionAttempts = None, opt_reconnectionDelay = None,
                      opt_timeout = None\<rparr>"

definition manual_client :: client where
  "manual_client = new_client True manual_options"

definition emit_connect_emit :: "client_input list" where
  "emit_connect_emit = [Emits ''x'' [JNum 1] ''i1'' 10, Connects, Emits ''y'' [] ''i2'' 11]"

section \<open>Event names\<close>

lemma str_includes_single: "str_includes s [c] = (c \<in> set s)"
  by (induction s) auto

lemma startsWith_single: "startsWith s [c] = (\<exists>rest. s = c # rest)"
  by (cases s) auto

text \<open>
  C7. \<open>isValidEventName\<close> rejects exactly the empty string, the strings that start with
  the sentinel \<open>$\<close>, the strings that contain a null character, and the six reserved
  control names; it accepts every other string.
\<close>

theorem isValidEventName_rejects_exactly:
  "isValidEventName e =
     (\<not> (e = [] \<or> (\<exists>rest. e = CHR ''$'' # rest) \<or> CHR 0x00 \<in> set e
         \<or> e = ''connect'' \<or> e = ''disconnect'' \<or> e = ''error''
         \<or> e = ''connecting'' \<or> e = ''reconnecting'' \<or> e = ''reconnect_failed''))"
  unfolding isValidEventName_def reservedEvents_def str_includes_single startsWith_single
  by auto

section \<open>Decoding\<close>

lemma isArray_iff: "isArray d = (\<exists>xs. d = Some (JArr xs))"
  by (cases d rule: isArray.cases) auto

lemma valid_x: "isValidEventName ''x''"
  by (simp add: isValidEventName_def reservedEvents_def)


text \<open>What an accepted payload looks like: the parser returned an object whose \<open>event\<close>
  is a valid name, and the result is that object, with \<open>data\<close> rewritten unless it was
  an array.\<close>

lemma deserializeMessage_accepts:
  assumes "deserializeMessage JSON_parse text = Inr m"
  shows "\<exists>kvs. JSON_parse text = Some (JObj kvs)
           \<and> (\<exists>ev. map_of kvs ''event'' = Some (JStr ev) \<and> isValidEventName ev)
           \<and> m = (if isArray (map_of kvs ''data'') then JObj kvs
                   else JObj (AList.update ''data'' (wrap_data (map_of kvs ''data'')) kvs))"
proof -
  from assms obtain parsed where p: "JSON_parse text = Some parsed"
    by (auto simp: deserializeMessage_def split: if_splits option.splits)
  show ?thesis
  proof (cases parsed)
    case (JObj kvs)
    with assms p show ?thesis
      by (auto simp: deserializeMessage_def split: if_splits option.splits json.splits)
  qed (use assms p in \<open>auto simp: deserializeMessage_def split: if_splits\<close>)
qed

lemma deserialize_payload:
  "\<not> isArray (Some d) \<Longrightarrow>
     deserializeMessage (parse_only (payload d)) (JSON_stringify (payload d))
       = (if length (JSON_stringify (payload d)) > max_message_length
          then Inl (FailedToDeserialize MessageTooLarge)
          else Inr (JObj [(''event'', JStr ''x''), (''data'', wrap_data (Some d))]))"
  by (simp add: deserializeMessage_def parse_only_def payload_def valid_x
      del: JSON_stringify.simps wrap_data.simps)

lemmas stringify_eval =
  payload_def quote_def escape_char_def show_int_def digits.simps digit_char_def
  max_message_length_def

text \<open>
  C2, as the code has it. For every payload that \<open>deserializeMessage\<close> accepts, the
  \<open>data\<close> of the result is a sequence: a \<open>data\<close> that is a sequence is kept (the whole
  object is returned as parsed), an absent \<open>data\<close> becomes the empty sequence, and a bare
  value that is truthy becomes the one-element sequence holding it. Nothing is promised
  here for the falsy bare values.
\<close>

theorem deserializeMessage_normalizes_data:
  assumes "deserializeMessage JSON_parse text = Inr m"
  shows "\<exists>kvs. JSON_parse text = Some (JObj kvs) \<and>
           (\<exists>xs. data_of m = Some (JArr xs)) \<and>
           (\<forall>xs. map_of kvs ''data'' = Some (JArr xs) \<longrightarrow> m = JObj kvs) \<and>
           (map_of kvs ''data'' = None \<longrightarrow> data_of m = Some (JArr [])) \<and>
           (\<forall>d. map_of kvs ''data'' = Some d \<longrightarrow> \<not> isArray (Some d) \<longrightarrow> truthy d \<longrightarrow>
                  data_of m = Some (JArr [d]))"
proof -
  from deserializeMessage_accepts [OF assms] obtain kvs where
    p: "JSON_parse text = Some (JObj kvs)" and
    m: "m = (if isArray (map_of kvs ''data'') then JObj kvs
             else JObj (AList.update ''data'' (wrap_data (map_of kvs ''data'')) kvs))"
    by blast
  show ?thesis
  proof (cases "isArray (map_of kvs ''data'')")
    case True
    with m p show ?thesis by (auto simp: isArray_iff data_of_def)
  next
    case False
    with m p show ?thesis
      by (cases "map_of kvs ''data''") (auto simp: data_of_def update_conv' isArray_iff)
  qed
qed

text \<open>The theorem at the payload \<open>{"event":"x","data":"hi"}\<close>: the decoded \<open>data\<close> is
  \<open>["hi"]\<close>.\<close>

theorem deserializeMessage_normalizes_data_witness:
  "deserializeMessage (parse_only (payload (JStr ''hi''))) (JSON_stringify (payload (JStr ''hi'')))
     = Inr (JObj [(''event'', JStr ''x''), (''data'', JArr [JStr ''hi''])])
   \<and> data_of (JObj [(''event'', JStr ''x''), (''data'', JArr [JStr ''hi''])]) = Some (JArr [JStr ''hi''])"
proof -
  have d: "deserializeMessage (parse_only (payload (JStr ''hi''))) (JSON_stringify (payload (JStr ''hi'')))
             = Inr (JObj [(''event'', JStr ''x''), (''data'', JArr [JStr ''hi''])])"
    by (simp add: deserialize_payload) (simp add: stringify_eval)
  have p: "parse_only (payload (JStr ''hi'')) (JSON_stringify (payload (JStr ''hi'')))
             = Some (JObj [(''event'', JStr ''x''), (''data'', JStr ''hi'')])"
    by (simp add: parse_only_def) (simp add: payload_def)
  from deserializeMessage_normalizes_data [OF d] p
  have "data_of (JObj [(''event'', JStr ''x''), (''data'', JArr [JStr ''hi''])]) = Some (JArr [JStr ''hi''])"
    by simp
  with d show ?thesis by simp
qed

text \<open>
  The claim as stated fails: the bare values \<open>0\<close>, \<open>false\<close>, the empty string and
  \<open>null\<close> are accepted and decoded to the empty sequence, not to a one-element one.
\<close>

theorem falsy_data_decodes_to_empty:
  "deserializeMessage (parse_only (payload (JNum 0))) (JSON_stringify (payload (JNum 0)))
     = Inr (JObj [(''event'', JStr ''x''), (''data'', JArr [])])
   \<and> deserializeMessage (parse_only (payload (JBool False))) (JSON_stringify (payload (JBool False)))
     = Inr (JObj [(''event'', JStr ''x''), (''data'', JArr [])])
   \<and> deserializeMessage (parse_only (payload (JStr []))) (JSON_stringify (payload (JStr [])))
     = Inr (JObj [(''event'', JStr ''x''), (''data'', JArr [])])
   \<and> deserializeMessage (parse_only (payload JNull)) (JSON_stringify (payload JNull))
     = Inr (JObj [(''event'', JStr ''x''), (''data'', JArr [])])
   \<and> data_of (JObj [(''event'', JStr ''x''), (''data'', JArr [])]) \<noteq> Some (JArr [JNum 0])"
proof -
  have 1: "deserializeMessage (parse_only (payload (JNum 0))) (JSON_stringify (payload (JNum 0)))
     = Inr (JObj [(''event'', JStr ''x''), (''data'', JArr [])])"
    by (simp add: deserialize_payload) (simp add: stringify_eval)
  have 2: "deserializeMessage (parse_only (payload (JBool False))) (JSON_stringify (payload (JBool False)))
     = Inr (JObj [(''event'', JStr ''x''), (''data'', JArr [])])"
    by (simp add: deserialize_payload) (simp add: stringify_eval)
  have 3: "deserializeMessage (parse_only (payload (JStr []))) (JSON_stringify (payload (JStr [])))
     = Inr (JObj [(''event'', JStr ''x''), (''data'', JArr [])])"
    by (simp add: deserialize_payload) (simp add: stringify_eval)
  have 4: "deserializeMessage (parse_only (payload JNull)) (JSON_stringify (payload JNull))
     = Inr (JObj [(''event'', JStr ''x''), (''data'', JArr [])])"
    by (simp add: deserialize_payload) (simp add: stringify_eval)
  have 5: "data_of (JObj [(''event'', JStr ''x''), (''data'', JArr [])]) \<noteq> Some (JArr [JNum 0])"
    by (simp add: data_of_def)
  from 1 2 3 4 5 show ?thesis by simp
qed

section \<open>Round trip\<close>








lemma unicode_escape_drop: "unicode_escape s = Some (ch, rest) \<Longrightarrow> rest = drop 4 s"
  by (auto simp: unicode_escape_def split: list.splits option.splits if_splits)






























lemma delimited_simps [simp]:
  "delimited []" "delimited (CHR '','' # cs)" "delimited (CHR '']'' # cs)" "delimited (CHR ''}'' # cs)"
  by (simp_all add: delimited_def)

lemma skip_ws_delims [simp]:
  "skip_ws (CHR '','' # cs) = CHR '','' # cs"
  "skip_ws (CHR '']'' # cs) = CHR '']'' # cs"
  "skip_ws (CHR ''}'' # cs) = CHR ''}'' # cs"
  "skip_ws (CHR '':'' # cs) = CHR '':'' # cs"
  "skip_ws (CHR 0x22 # cs) = CHR 0x22 # cs"
  "skip_ws (CHR ''['' # cs) = CHR ''['' # cs"
  "skip_ws (CHR ''{'' # cs) = CHR ''{'' # cs"
  "skip_ws [] = []"
  by (simp_all add: skip_ws_def is_ws_def)










section \<open>Room directory\<close>

lemma no_empty_room_iff:
  "no_empty_room s = (\<forall>n r. (n, r) \<in> set (rooms s) \<longrightarrow> sockets r \<noteq> [])"
  by (auto simp: no_empty_room_def list_all_iff)

lemma in_set_updateD: "(a, b) \<in> set (AList.update k v al) \<Longrightarrow> (a, b) = (k, v) \<or> (a, b) \<in> set al"
  by (induction al) (auto split: if_splits)

lemma in_set_deleteD: "(a, b) \<in> set (AList.delete k al) \<Longrightarrow> (a, b) \<in> set al \<and> a \<noteq> k"
  by (induction al) (auto split: if_splits)

lemma set_add_nonempty: "set_add x xs \<noteq> []"
  by (auto simp: set_add_def)

lemma joinRoom_no_empty_room: "no_empty_room s \<Longrightarrow> no_empty_room (joinRoom i n s)"
  by (auto simp: no_empty_room_iff joinRoom_def Let_def set_add_nonempty dest!: in_set_updateD)

lemma leaveRoom_no_empty_room: "no_empty_room s \<Longrightarrow> no_empty_room (leaveRoom i n s)"
  by (auto simp: no_empty_room_iff leaveRoom_def Let_def split: option.splits
      dest!: in_set_updateD in_set_deleteD)

lemma delete_empty_rooms_sound:
  "(n, r) \<in> set (delete_empty_rooms xs acc) \<Longrightarrow>
     (n, r) \<in> set acc \<and> (\<forall>r'. (n, r') \<in> set xs \<longrightarrow> sockets r' \<noteq> [])"
proof (induction xs arbitrary: acc)
  case Nil
  then show ?case by simp
next
  case (Cons x rest)
  obtain roomName r0 where x: "x = (roomName, r0)" by (cases x)
  let ?acc = "if length (sockets r0) = 0 then AList.delete roomName acc else acc"
  from Cons.prems x have "(n, r) \<in> set (delete_empty_rooms rest ?acc)" by simp
  from Cons.IH [OF this]
  have in_acc: "(n, r) \<in> set ?acc"
    and rest: "\<forall>r'. (n, r') \<in> set rest \<longrightarrow> sockets r' \<noteq> []" by blast+
  show ?case
  proof (cases "sockets r0 = []")
    case True
    with in_acc have "(n, r) \<in> set (AList.delete roomName acc)" by simp
    then have "(n, r) \<in> set acc" and "n \<noteq> roomName" by (blast dest: in_set_deleteD)+
    with rest x show ?thesis by simp
  next
    case False
    with in_acc rest x show ?thesis by auto
  qed
qed

lemma removeConnection_no_empty_room: "no_empty_room (removeConnection i s)"
  unfolding no_empty_room_iff removeConnection_def Let_def
  by (auto dest!: delete_empty_rooms_sound)

lemma rooms_notify [simp]: "rooms (notify r ev s) = rooms s"
  by (simp add: notify_def split: option.splits)

lemma rooms_server_emit [simp]: "rooms (server_emit ev s) = rooms s"
  by (simp add: server_emit_def)

lemma no_empty_room_cong: "rooms s = rooms s' \<Longrightarrow> no_empty_room s = no_empty_room s'"
  by (simp add: no_empty_room_def)

lemma rooms_joinRoom_heap [simp]: "rooms (joinRoom i n (s\<lparr>heap := h\<rparr>)) = rooms (joinRoom i n s)"
  by (simp add: joinRoom_def Let_def)

lemma rooms_leaveRoom_heap [simp]: "rooms (leaveRoom i n (s\<lparr>heap := h\<rparr>)) = rooms (leaveRoom i n s)"
  by (simp add: leaveRoom_def Let_def split: option.splits)

lemma conn_join_no_empty_room: "no_empty_room s \<Longrightarrow> no_empty_room (conn_join r n s)"
proof -
  assume a: "no_empty_room s"
  show ?thesis
  proof (cases "heap s r")
    case None
    with a show ?thesis by (simp add: conn_join_def)
  next
    case (Some c)
    have "no_empty_room (joinRoom (conn_id c) n s)" using a by (rule joinRoom_no_empty_room)
    with a Some show ?thesis
      by (simp add: conn_join_def no_empty_room_def)
  qed
qed

lemma conn_leave_no_empty_room: "no_empty_room s \<Longrightarrow> no_empty_room (conn_leave r n s)"
proof -
  assume a: "no_empty_room s"
  show ?thesis
  proof (cases "heap s r")
    case None
    with a show ?thesis by (simp add: conn_leave_def)
  next
    case (Some c)
    have "no_empty_room (leaveRoom (conn_id c) n s)" using a by (rule leaveRoom_no_empty_room)
    with a Some show ?thesis
      by (simp add: conn_leave_def no_empty_room_def)
  qed
qed

lemma leave_all_no_empty_room: "no_empty_room s \<Longrightarrow> no_empty_room (leave_all i rs s)"
  unfolding leave_all_def
  by (induction rs arbitrary: s) (simp_all add: leaveRoom_no_empty_room)

lemma conn_disconnect_no_empty_room: "no_empty_room s \<Longrightarrow> no_empty_room (conn_disconnect r s)"
proof -
  assume a: "no_empty_room s"
  show ?thesis
  proof (cases "heap s r")
    case None
    with a show ?thesis by (simp add: conn_disconnect_def)
  next
    case (Some c)
    have "no_empty_room (leave_all (conn_id c) (conn_rooms c) s)"
      using a by (rule leave_all_no_empty_room)
    with Some show ?thesis
      by (simp add: conn_disconnect_def Let_def no_empty_room_def)
  qed
qed

lemma handleConnection_no_empty_room:
  assumes "no_empty_room s"
  shows "no_empty_room (handleConnection mws i w s)"
proof -
  let ?s1 = "s\<lparr>connections := AList.update i (next_ref s) (connections s),
               heap := (heap s)(next_ref s \<mapsto> new_connection i w),
               next_ref := Suc (next_ref s)\<rparr>"
  have s1: "no_empty_room ?s1" using assms by (simp add: no_empty_room_def)
  have "no_empty_room (conn_disconnect (next_ref s) ?s1)"
    using s1 by (rule conn_disconnect_no_empty_room)
  with s1 show ?thesis
    by (simp add: handleConnection_def Let_def no_empty_room_def split: promise.splits)
qed

lemma handleDisconnection_no_empty_room:
  "no_empty_room s \<Longrightarrow> no_empty_room (handleDisconnection i code s)"
  using removeConnection_no_empty_room
  by (simp add: handleDisconnection_def no_empty_room_def split: option.splits)

lemma rooms_conn_send [simp]: "rooms (conn_send r t s) = rooms s"
  by (simp add: conn_send_def split: option.splits sum.splits)

lemma rooms_conn_emit [simp]: "rooms (snd (conn_emit r ev args i now s)) = rooms s"
  by (simp add: conn_emit_def)

lemma rooms_broadcast_loop [simp]: "rooms (snd (broadcast_loop b rs s)) = rooms s"
proof (induction rs arbitrary: s)
  case Nil
  show ?case by simp
next
  case (Cons r rs)
  show ?case
    by (simp add: Cons conn_emit_def isValidEventName_def reservedEvents_def
        split: option.splits sum.splits)
qed

lemma rooms_room_loop [simp]: "rooms (snd (room_loop b ids s)) = rooms s"
proof (induction ids arbitrary: s)
  case Nil
  show ?case by simp
next
  case (Cons i ids)
  show ?case
    by (simp add: Cons conn_emit_def isValidEventName_def reservedEvents_def
        split: option.splits sum.splits)
qed

lemma rooms_broadcast [simp]: "rooms (snd (broadcast ev args now s)) = rooms s"
  by (simp add: broadcast_def)

lemma rooms_broadcastToRoom [simp]: "rooms (snd (broadcastToRoom n ev args now s)) = rooms s"
  by (simp add: broadcastToRoom_def split: option.splits)

lemma server_close_no_empty_room: "no_empty_room (server_close s)"
  by (simp add: server_close_def no_empty_room_def)

lemma reachable_no_empty_room: "reachable s \<Longrightarrow> no_empty_room s"
proof (induction rule: reachable.induct)
  case (r_new opt)
  show ?case by (simp add: new_server_def no_empty_room_def)
next
  case (r_emit s r ev args fresh_id now)
  then show ?case by (simp add: no_empty_room_def)
next
  case (r_broadcast s ev args now)
  then show ?case by (simp add: no_empty_room_def)
next
  case (r_room_broadcast s roomName ev args now)
  then show ?case by (simp add: no_empty_room_def)
qed (simp_all add: handleConnection_no_empty_room joinRoom_no_empty_room leaveRoom_no_empty_room
      conn_join_no_empty_room conn_leave_no_empty_room conn_disconnect_no_empty_room
      removeConnection_no_empty_room handleDisconnection_no_empty_room server_close_no_empty_room)

lemma update_same: "map_of al k = Some v \<Longrightarrow> AList.update k v al = al"
  by (induction al) auto

lemma set_add_member: "x \<in> set xs \<Longrightarrow> set_add x xs = xs"
  by (simp add: set_add_def)

lemma set_delete_absent: "x \<notin> set xs \<Longrightarrow> set_delete x xs = xs"
  by (simp add: set_delete_def)

lemma server_rooms_same: "s\<lparr>rooms := rooms s\<rparr> = s"
  by simp

lemma joinRoom_member: "i \<in> set (members s n) \<Longrightarrow> joinRoom i n s = s"
  by (auto simp: members_def joinRoom_def Let_def set_add_member update_same split: option.splits)

lemma leaveRoom_absent:
  assumes "no_empty_room s" and "i \<notin> set (members s n)"
  shows "leaveRoom i n s = s"
proof (cases "map_of (rooms s) n")
  case None
  then show ?thesis by (simp add: leaveRoom_def)
next
  case (Some r)
  then have "(n, r) \<in> set (rooms s)" by (rule map_of_SomeD)
  with assms(1) have ne: "sockets r \<noteq> []" by (auto simp: no_empty_room_iff)
  from assms(2) Some have "set_delete i (sockets r) = sockets r"
    by (simp add: members_def set_delete_absent)
  with Some ne show ?thesis
    by (simp add: leaveRoom_def Let_def update_same)
qed

lemma present_iff_members:
  assumes "no_empty_room s"
  shows "(map_of (rooms s) n \<noteq> None) = (members s n \<noteq> [])"
proof (cases "map_of (rooms s) n")
  case None
  then show ?thesis by (simp add: members_def)
next
  case (Some r)
  then have "(n, r) \<in> set (rooms s)" by (rule map_of_SomeD)
  with assms have "sockets r \<noteq> []" by (auto simp: no_empty_room_iff)
  with Some show ?thesis by (simp add: members_def)
qed

lemma heap_joinRoom [simp]: "heap (joinRoom i n s) = heap s"
  by (simp add: joinRoom_def Let_def)

lemma heap_leaveRoom [simp]: "heap (leaveRoom i n s) = heap s"
  by (simp add: leaveRoom_def Let_def split: option.splits)

lemma conn_join_twice: "conn_join r n (conn_join r n s) = conn_join r n s"
proof (cases "heap s r")
  case None
  then show ?thesis by (simp add: conn_join_def)
next
  case (Some c)
  show ?thesis
  proof (cases "n \<in> set (conn_rooms c)")
    case True
    with Some show ?thesis by (simp add: conn_join_def)
  next
    case False
    let ?s' = "conn_join r n s"
    from Some False have "\<exists>c'. heap ?s' r = Some c' \<and> n \<in> set (conn_rooms c')"
      by (simp add: conn_join_def notify_def set_add_def)
    then obtain c' where "heap ?s' r = Some c'" and "n \<in> set (conn_rooms c')" by blast
    then show ?thesis by (simp add: conn_join_def [of r n ?s'])
  qed
qed

text \<open>
  C4. In every reachable server state: a room name is in the directory exactly when its
  member set is not empty; a connection that joins a room it has already joined changes
  nothing (its room set, the room's members and everything else stay as they were),
  joining twice is joining once, and adding a member id that the room already has changes
  nothing; a connection that leaves a room it has not joined changes nothing, and so does
  removing an id from a room that does not have it. None of these operations can raise.
\<close>

theorem room_directory_invariants:
  assumes "reachable s"
  shows "((map_of (rooms s) roomName \<noteq> None) = (members s roomName \<noteq> []))
       \<and> (\<forall>c. heap s r = Some c \<longrightarrow> roomName \<in> set (conn_rooms c) \<longrightarrow> conn_join r roomName s = s)
       \<and> conn_join r roomName (conn_join r roomName s) = conn_join r roomName s
       \<and> (socketId \<in> set (members s roomName) \<longrightarrow> joinRoom socketId roomName s = s)
       \<and> (\<forall>c. heap s r = Some c \<longrightarrow> roomName \<notin> set (conn_rooms c) \<longrightarrow> conn_leave r roomName s = s)
       \<and> (socketId \<notin> set (members s roomName) \<longrightarrow> leaveRoom socketId roomName s = s)"
proof -
  have inv: "no_empty_room s" using assms by (rule reachable_no_empty_room)
  have 1: "(map_of (rooms s) roomName \<noteq> None) = (members s roomName \<noteq> [])"
    using inv by (rule present_iff_members)
  have 2: "\<forall>c. heap s r = Some c \<longrightarrow> roomName \<in> set (conn_rooms c) \<longrightarrow> conn_join r roomName s = s"
    by (simp add: conn_join_def)
  have 3: "\<forall>c. heap s r = Some c \<longrightarrow> roomName \<notin> set (conn_rooms c) \<longrightarrow> conn_leave r roomName s = s"
    by (simp add: conn_leave_def)
  have 4: "socketId \<notin> set (members s roomName) \<longrightarrow> leaveRoom socketId roomName s = s"
    using inv by (simp add: leaveRoom_absent)
  from 1 2 3 4 show ?thesis
    by (simp add: conn_join_twice joinRoom_member)
qed

lemma lobby_reachable: "reachable lobby_server"
  unfolding lobby_server_def accepted_server_def by (intro reachable.intros)

lemma accepted_eq: "accepted_server =
   \<lparr>connections = [(''a'', 0)], rooms = [], maxBackpressure = 65536,
    heap = (\<lambda>r. None)(0 \<mapsto> new_connection ''a'' idle_channel), next_ref = Suc 0,
    emitted = [EvConnection 0]\<rparr>"
  by (simp add: accepted_server_def handleConnection_def new_server_def server_emit_def Let_def)

lemma lobby_rooms: "rooms lobby_server = [(''lobby'', \<lparr>room_name = ''lobby'', sockets = [''a'']\<rparr>)]"
  by (simp add: lobby_server_def accepted_eq conn_join_def new_connection_def joinRoom_def set_add_def)

lemma lobby_heap: "heap lobby_server 0 = Some \<lparr>conn_id = ''a'', ws = idle_channel, conn_rooms = [''lobby''], notified = [NJoin ''lobby'']\<rparr>"
  by (simp add: lobby_server_def accepted_eq conn_join_def new_connection_def notify_def set_add_def joinRoom_def)

text \<open>The theorem at the sample server, for the room \<open>lobby\<close> that connection \<open>a\<close> joined
  and the room \<open>den\<close> that nobody joined.\<close>

theorem room_directory_invariants_witness:
  "reachable lobby_server
   \<and> members lobby_server ''lobby'' = [''a'']
   \<and> map_of (rooms lobby_server) ''lobby'' \<noteq> None
   \<and> members lobby_server ''den'' = []
   \<and> map_of (rooms lobby_server) ''den'' = None
   \<and> conn_join 0 ''lobby'' lobby_server = lobby_server
   \<and> joinRoom ''a'' ''lobby'' lobby_server = lobby_server
   \<and> conn_leave 0 ''den'' lobby_server = lobby_server
   \<and> leaveRoom ''a'' ''den'' lobby_server = lobby_server"
proof -
  note lobby = room_directory_invariants [OF lobby_reachable, of "''lobby''" 0 "''a''"]
  note den = room_directory_invariants [OF lobby_reachable, of "''den''" 0 "''a''"]
  have m1: "members lobby_server ''lobby'' = [''a'']"
    by (simp add: members_def lobby_rooms)
  have m2: "members lobby_server ''den'' = []"
    by (simp add: members_def lobby_rooms)
  have p1: "map_of (rooms lobby_server) ''lobby'' \<noteq> None"
    using lobby [THEN conjunct1] by (simp add: m1)
  have p2: "map_of (rooms lobby_server) ''den'' = None"
    using den [THEN conjunct1] by (simp add: m2)
  have in1: "''lobby'' \<in> set (conn_rooms \<lparr>conn_id = ''a'', ws = idle_channel, conn_rooms = [''lobby''], notified = [NJoin ''lobby'']\<rparr>)"
    by simp
  have in2: "''den'' \<notin> set (conn_rooms \<lparr>conn_id = ''a'', ws = idle_channel, conn_rooms = [''lobby''], notified = [NJoin ''lobby'']\<rparr>)"
    by simp
  have j1: "conn_join 0 ''lobby'' lobby_server = lobby_server"
    by (rule lobby [THEN conjunct2, THEN conjunct1, rule_format, OF lobby_heap in1])
  have in3: "''a'' \<in> set (members lobby_server ''lobby'')"
    by (simp add: m1)
  have j2: "joinRoom ''a'' ''lobby'' lobby_server = lobby_server"
    by (rule lobby [THEN conjunct2, THEN conjunct2, THEN conjunct2, THEN conjunct1, rule_format, OF in3])
  have l1: "conn_leave 0 ''den'' lobby_server = lobby_server"
    by (rule den [THEN conjunct2, THEN conjunct2, THEN conjunct2, THEN conjunct2, THEN conjunct1,
          rule_format, OF lobby_heap in2])
  have in4: "''a'' \<notin> set (members lobby_server ''den'')"
    by (simp add: m2)
  have l2: "leaveRoom ''a'' ''den'' lobby_server = lobby_server"
    by (rule den [THEN conjunct2, THEN conjunct2, THEN conjunct2, THEN conjunct2, THEN conjunct2,
          rule_format, OF in4])
  show ?thesis
    by (intro conjI) (rule lobby_reachable m1 m2 p1 p2 j1 j2 l1 l2)+
qed

section \<open>Backpressure and broadcast\<close>

lemma valid_news: "isValidEventName ''news''"
  by (simp add: isValidEventName_def reservedEvents_def)

lemma invalid_connect: "\<not> isValidEventName ''connect''"
  by (simp add: isValidEventName_def reservedEvents_def)

lemma congested_eq: "congested_server =
   \<lparr>connections = [(''a'', 0)], rooms = [], maxBackpressure = 65536,
    heap = (\<lambda>r. None)(0 \<mapsto> new_connection ''a'' congested_channel), next_ref = Suc 0,
    emitted = [EvConnection 0]\<rparr>"
  by (simp add: congested_server_def handleConnection_def new_server_def server_emit_def Let_def)

lemma small_ceiling_eq: "small_ceiling_server =
   \<lparr>connections = [(''a'', 0)], rooms = [], maxBackpressure = 1024,
    heap = (\<lambda>r. None)(0 \<mapsto> new_connection ''a'' busy_channel), next_ref = Suc 0,
    emitted = [EvConnection 0]\<rparr>"
  by (simp add: small_ceiling_server_def handleConnection_def new_server_def server_emit_def Let_def)

text \<open>
  C1 says that a send to a connection whose buffered bytes are at or above the configured
  ceiling is dropped and reported as a backpressure error. Evaluated on the code:
  \<open>broadcast\<close> to a connection that holds exactly the ceiling returns normally and leaves
  the whole state as it was (nothing sent, nothing reported), while the connection's own
  \<open>emit\<close> reports the error there; and with a configured ceiling of 1024 bytes the
  connection's own \<open>emit\<close> sends to a channel that holds 2000 bytes and reports nothing.
\<close>

theorem broadcast_drops_without_report:
  "maxBackpressure congested_server = 65536
   \<and> map_option (\<lambda>c. bufferedAmount (ws c)) (heap congested_server 0) = Some 65536
   \<and> broadcast ''news'' [JStr ''hi''] 0 congested_server = (None, congested_server)
   \<and> conn_emit 0 ''news'' [JStr ''hi''] ''m1'' 0 congested_server
       = (None, notify 0 (NError BackpressureLimitExceeded) congested_server)
   \<and> maxBackpressure small_ceiling_server = 1024
   \<and> map_option (\<lambda>c. bufferedAmount (ws c)) (heap small_ceiling_server 0) = Some 2000
   \<and> map_option (\<lambda>c. (sent (ws c), notified c))
        (heap (snd (conn_emit 0 ''news'' [JStr ''hi''] ''m1'' 0 small_ceiling_server)) 0)
       = Some ([serializeMessage \<lparr>event = ''news'', data = JArr [JStr ''hi''],
                                  msg_id = Some ''m1'', timestamp = Some 0\<rparr>], [])"
proof -
  have 1: "maxBackpressure congested_server = 65536"
    by (simp add: congested_eq)
  have 2: "map_option (\<lambda>c. bufferedAmount (ws c)) (heap congested_server 0) = Some 65536"
    by (simp add: congested_eq new_connection_def congested_channel_def)
  have 3: "broadcast ''news'' [JStr ''hi''] 0 congested_server = (None, congested_server)"
    by (simp add: broadcast_def valid_news)
       (simp add: congested_eq new_connection_def congested_channel_def)
  have 4: "conn_emit 0 ''news'' [JStr ''hi''] ''m1'' 0 congested_server
       = (None, notify 0 (NError BackpressureLimitExceeded) congested_server)"
    by (simp add: conn_emit_def valid_news conn_send_def)
       (simp add: congested_eq new_connection_def congested_channel_def)
  have 5: "maxBackpressure small_ceiling_server = 1024"
    by (simp add: small_ceiling_eq)
  have 6: "map_option (\<lambda>c. bufferedAmount (ws c)) (heap small_ceiling_server 0) = Some 2000"
    by (simp add: small_ceiling_eq new_connection_def busy_channel_def)
  have 7: "map_option (\<lambda>c. (sent (ws c), notified c))
        (heap (snd (conn_emit 0 ''news'' [JStr ''hi''] ''m1'' 0 small_ceiling_server)) 0)
       = Some ([serializeMessage \<lparr>event = ''news'', data = JArr [JStr ''hi''],
                                  msg_id = Some ''m1'', timestamp = Some 0\<rparr>], [])"
    by (simp add: conn_emit_def valid_news conn_send_def ws_send_def small_ceiling_eq
        new_connection_def busy_channel_def del: One_nat_def)
  from 1 2 3 4 5 6 7 show ?thesis by simp
qed

text \<open>A member id that the registry no longer has is passed over by the room fan-out,
  and so is a connection at or above the ceiling, by both fan-outs.\<close>

lemma broadcast_loop_passes_over:
  "heap s r = Some c \<Longrightarrow> maxBackpressure s \<le> bufferedAmount (ws c) \<Longrightarrow>
     broadcast_loop buffer (r # rest) s = broadcast_loop buffer rest s"
  by simp

lemma room_loop_skips_unregistered:
  "map_of (connections s) socketId = None \<Longrightarrow>
     room_loop buffer (socketId # rest) s = room_loop buffer rest s"
  by simp

lemma lobby_eq: "lobby_server =
   \<lparr>connections = [(''a'', 0)],
    rooms = [(''lobby'', \<lparr>room_name = ''lobby'', sockets = [''a'']\<rparr>)],
    maxBackpressure = 65536,
    heap = (\<lambda>r. None)(0 \<mapsto> \<lparr>conn_id = ''a'', ws = idle_channel, conn_rooms = [''lobby''],
                                 notified = [NJoin ''lobby'']\<rparr>),
    next_ref = Suc 0, emitted = [EvConnection 0]\<rparr>"
  by (simp add: lobby_server_def accepted_eq conn_join_def new_connection_def notify_def
      set_add_def joinRoom_def)

text \<open>
  C3 says that \<open>broadcastToRoom\<close> rejects an invalid event name as \<open>broadcast\<close> does.
  Evaluated on the code: for the reserved name \<open>connect\<close>, \<open>broadcast\<close> raises and
  leaves the state as it was, while \<open>broadcastToRoom\<close> returns normally and has sent the
  envelope to the member of the room.
\<close>

theorem broadcastToRoom_sends_reserved_event:
  "\<not> isValidEventName ''connect''
   \<and> broadcast ''connect'' [] 0 lobby_server = (Some (InvalidEventName ''connect''), lobby_server)
   \<and> fst (broadcastToRoom ''lobby'' ''connect'' [] 0 lobby_server) = None
   \<and> map_option (\<lambda>c. sent (ws c)) (heap (snd (broadcastToRoom ''lobby'' ''connect'' [] 0 lobby_server)) 0)
       = Some [serializeMessage \<lparr>event = ''connect'', data = JArr [], msg_id = None, timestamp = Some 0\<rparr>]"
proof -
  have 1: "broadcast ''connect'' [] 0 lobby_server = (Some (InvalidEventName ''connect''), lobby_server)"
    by (simp add: broadcast_def invalid_connect)
  have 2: "fst (broadcastToRoom ''lobby'' ''connect'' [] 0 lobby_server) = None"
    by (simp add: broadcastToRoom_def lobby_eq idle_channel_def ws_send_def)
  have 3: "map_option (\<lambda>c. sent (ws c)) (heap (snd (broadcastToRoom ''lobby'' ''connect'' [] 0 lobby_server)) 0)
       = Some [serializeMessage \<lparr>event = ''connect'', data = JArr [], msg_id = None, timestamp = Some 0\<rparr>]"
    by (simp add: broadcastToRoom_def lobby_eq idle_channel_def ws_send_def)
  from invalid_connect 1 2 3 show ?thesis by simp
qed

section \<open>Middleware chain\<close>

lemma announced_below_iff:
  "announced_below s = (\<forall>r. EvConnection r \<in> set (emitted s) \<longrightarrow> r < next_ref s)"
  by (auto simp: announced_below_def list_all_iff split: server_event.splits)

lemma announced_below_frame:
  "emitted s' = emitted s \<Longrightarrow> next_ref s' = next_ref s \<Longrightarrow> announced_below s' = announced_below s"
  by (simp add: announced_below_iff)

lemma log_joinRoom [simp]:
  "emitted (joinRoom i n s) = emitted s" "next_ref (joinRoom i n s) = next_ref s"
  by (simp_all add: joinRoom_def Let_def)

lemma log_leaveRoom [simp]:
  "emitted (leaveRoom i n s) = emitted s" "next_ref (leaveRoom i n s) = next_ref s"
  by (simp_all add: leaveRoom_def Let_def split: option.splits)

lemma log_notify [simp]:
  "emitted (notify r ev s) = emitted s" "next_ref (notify r ev s) = next_ref s"
  by (simp_all add: notify_def split: option.splits)

lemma log_leave_all [simp]:
  "emitted (leave_all i rs s) = emitted s" "next_ref (leave_all i rs s) = next_ref s"
  unfolding leave_all_def by (induction rs arbitrary: s) simp_all

lemma log_conn_join [simp]:
  "emitted (conn_join r n s) = emitted s" "next_ref (conn_join r n s) = next_ref s"
  by (simp_all add: conn_join_def split: option.splits)

lemma log_conn_leave [simp]:
  "emitted (conn_leave r n s) = emitted s" "next_ref (conn_leave r n s) = next_ref s"
  by (simp_all add: conn_leave_def split: option.splits)

lemma log_conn_disconnect [simp]:
  "emitted (conn_disconnect r s) = emitted s" "next_ref (conn_disconnect r s) = next_ref s"
  by (simp_all add: conn_disconnect_def Let_def split: option.splits)

lemma log_removeConnection [simp]:
  "emitted (removeConnection i s) = emitted s" "next_ref (removeConnection i s) = next_ref s"
  by (simp_all add: removeConnection_def Let_def)

lemma log_conn_send [simp]:
  "emitted (conn_send r t s) = emitted s" "next_ref (conn_send r t s) = next_ref s"
  by (simp_all add: conn_send_def split: option.splits sum.splits)

lemma log_conn_emit [simp]:
  "emitted (snd (conn_emit r ev args i now s)) = emitted s"
  "next_ref (snd (conn_emit r ev args i now s)) = next_ref s"
  by (simp_all add: conn_emit_def)

lemma invalid_error: "\<not> isValidEventName ''error''"
  by (simp add: isValidEventName_def reservedEvents_def)

lemma log_broadcast_loop [simp]:
  "emitted (snd (broadcast_loop b rs s)) = emitted s \<and> next_ref (snd (broadcast_loop b rs s)) = next_ref s"
proof (induction rs arbitrary: s)
  case Nil
  show ?case by simp
next
  case (Cons r rs)
  show ?case
    by (simp add: Cons conn_emit_def invalid_error split: option.splits sum.splits)
qed

lemma log_room_loop [simp]:
  "emitted (snd (room_loop b ids s)) = emitted s \<and> next_ref (snd (room_loop b ids s)) = next_ref s"
proof (induction ids arbitrary: s)
  case Nil
  show ?case by simp
next
  case (Cons i ids)
  show ?case
    by (simp add: Cons conn_emit_def invalid_error split: option.splits sum.splits)
qed

lemma log_broadcast [simp]:
  "emitted (snd (broadcast ev args now s)) = emitted s"
  "next_ref (snd (broadcast ev args now s)) = next_ref s"
  by (simp_all add: broadcast_def)

lemma log_broadcastToRoom [simp]:
  "emitted (snd (broadcastToRoom n ev args now s)) = emitted s"
  "next_ref (snd (broadcastToRoom n ev args now s)) = next_ref s"
  by (simp_all add: broadcastToRoom_def split: option.splits)

lemma log_disconnect_all [simp]:
  "emitted (foldl (\<lambda>acc r. conn_disconnect r acc) s rs) = emitted s"
  "next_ref (foldl (\<lambda>acc r. conn_disconnect r acc) s rs) = next_ref s"
  by (induction rs arbitrary: s) simp_all

lemma announced_below_handleDisconnection:
  "announced_below s \<Longrightarrow> announced_below (handleDisconnection i code s)"
  by (auto simp: announced_below_iff handleDisconnection_def server_emit_def split: option.splits)

lemma announced_below_server_close:
  "announced_below s \<Longrightarrow> announced_below (server_close s)"
  by (auto simp: announced_below_iff server_close_def server_emit_def)

lemma announced_below_handleConnection:
  assumes "announced_below s"
  shows "announced_below (handleConnection mws i w s)"
proof -
  let ?s1 = "s\<lparr>connections := AList.update i (next_ref s) (connections s),
               heap := (heap s)(next_ref s \<mapsto> new_connection i w),
               next_ref := Suc (next_ref s)\<rparr>"
  have "handleConnection mws i w s =
          (case fst (runMiddlewares mws (new_connection i w)) of
             Resolved \<Rightarrow> server_emit (EvConnection (next_ref s)) ?s1
           | Rejected err \<Rightarrow> server_emit (EvError err) (conn_disconnect (next_ref s) ?s1)
           | Pending \<Rightarrow> ?s1)"
    by (simp add: handleConnection_def Let_def)
  with assms show ?thesis
    by (auto simp: announced_below_iff server_emit_def less_Suc_eq split: promise.splits)
qed

lemma reachable_announced_below: "reachable s \<Longrightarrow> announced_below s"
proof (induction rule: reachable.induct)
  case (r_new opt)
  show ?case by (simp add: new_server_def announced_below_iff)
next
  case (r_accept s middlewares socketId w)
  then show ?case by (simp add: announced_below_handleConnection)
next
  case (r_dropped s socketId code)
  then show ?case by (simp add: announced_below_handleDisconnection)
next
  case (r_close s)
  then show ?case by (simp add: announced_below_server_close)
qed (simp_all add: announced_below_iff)

lemma runMiddlewares_abort:
  assumes "i < length mws"
    and "\<forall>j<i. (mws ! j) socket = CallsNext"
    and "(mws ! i) socket = CallsNextWith err"
  shows "runMiddlewares mws socket = (Rejected (MiddlewareError err), Suc i)"
  using assms
proof (induction mws arbitrary: i)
  case Nil
  then show ?case by simp
next
  case (Cons mw rest)
  show ?case
  proof (cases i)
    case 0
    with Cons.prems show ?thesis by simp
  next
    case (Suc k)
    with Cons.prems have k: "k < length rest" by simp
    from Suc Cons.prems have first: "mw socket = CallsNext" by auto
    from Suc Cons.prems have before: "\<forall>j<k. (rest ! j) socket = CallsNext" by auto
    from Suc Cons.prems have at: "(rest ! k) socket = CallsNextWith err" by simp
    from Cons.IH [OF k before at] first Suc show ?thesis by simp
  qed
qed

lemma runMiddlewares_prefix:
  assumes "i < length mws"
    and "\<forall>j<i. (mws ! j) socket = CallsNext"
    and "(mws ! i) socket = CallsNextWith err"
  shows "runMiddlewares mws socket = runMiddlewares (take (Suc i) mws) socket"
proof -
  have "runMiddlewares (take (Suc i) mws) socket = (Rejected (MiddlewareError err), Suc i)"
    using assms by (intro runMiddlewares_abort) auto
  with runMiddlewares_abort [OF assms] show ?thesis by simp
qed

lemma emitted_conn_disconnect_fresh:
  "heap s r = Some (new_connection i w) \<Longrightarrow>
     conn_disconnect r s = s\<lparr>heap := (heap s)(r \<mapsto>
        \<lparr>conn_id = i, ws = ws_close w, conn_rooms = [], notified = [NDisconnect]\<rparr>)\<rparr>"
  by (simp add: conn_disconnect_def new_connection_def leave_all_def)

text \<open>
  C9. When a middleware of the chain calls its continuation with an error (the ones
  before it having called it without), in any reachable server state: the chain is
  rejected with that error after exactly the middleware up to this one were invoked, and
  the acceptance is the same as if the later ones were not registered; the server emits
  the error and no \<open>connection\<close> event for the new connection; and the connection's
  channel is closed, with \<open>disconnect\<close> as its only local notification.
\<close>

theorem middleware_abort_tears_down:
  assumes "reachable s"
    and "i < length mws"
    and "\<forall>j<i. (mws ! j) (new_connection socketId w) = CallsNext"
    and "(mws ! i) (new_connection socketId w) = CallsNextWith err"
  shows "runMiddlewares mws (new_connection socketId w) = (Rejected (MiddlewareError err), Suc i)
       \<and> handleConnection mws socketId w s = handleConnection (take (Suc i) mws) socketId w s
       \<and> emitted (handleConnection mws socketId w s) = emitted s @ [EvError (MiddlewareError err)]
       \<and> heap (handleConnection mws socketId w s) (next_ref s)
           = Some \<lparr>conn_id = socketId, ws = w\<lparr>closed := True\<rparr>, conn_rooms = [],
                    notified = [NDisconnect]\<rparr>
       \<and> EvConnection (next_ref s) \<notin> set (emitted (handleConnection mws socketId w s))"
proof -
  let ?c = "new_connection socketId w"
  have run: "runMiddlewares mws ?c = (Rejected (MiddlewareError err), Suc i)"
    using assms(2-4) by (rule runMiddlewares_abort)
  have pre: "runMiddlewares mws ?c = runMiddlewares (take (Suc i) mws) ?c"
    using assms(2-4) by (rule runMiddlewares_prefix)
  have same: "handleConnection mws socketId w s = handleConnection (take (Suc i) mws) socketId w s"
    by (simp add: handleConnection_def pre)
  let ?s1 = "s\<lparr>connections := AList.update socketId (next_ref s) (connections s),
               heap := (heap s)(next_ref s \<mapsto> ?c),
               next_ref := Suc (next_ref s)\<rparr>"
  have h: "heap ?s1 (next_ref s) = Some ?c" by simp
  have hc: "handleConnection mws socketId w s
              = server_emit (EvError (MiddlewareError err)) (conn_disconnect (next_ref s) ?s1)"
    by (simp add: handleConnection_def Let_def run)
  have ev: "emitted (handleConnection mws socketId w s) = emitted s @ [EvError (MiddlewareError err)]"
    unfolding hc emitted_conn_disconnect_fresh [OF h] by (simp add: server_emit_def)
  have hp: "heap (handleConnection mws socketId w s) (next_ref s)
           = Some \<lparr>conn_id = socketId, ws = w\<lparr>closed := True\<rparr>, conn_rooms = [],
                    notified = [NDisconnect]\<rparr>"
    unfolding hc emitted_conn_disconnect_fresh [OF h] by (simp add: server_emit_def ws_close_def)
  have "announced_below s" using assms(1) by (rule reachable_announced_below)
  then have "EvConnection (next_ref s) \<notin> set (emitted s)"
    by (auto simp: announced_below_iff)
  with ev have fresh: "EvConnection (next_ref s) \<notin> set (emitted (handleConnection mws socketId w s))"
    by simp
  from run same ev hp fresh show ?thesis by simp
qed

lemma accepted_reachable: "reachable accepted_server"
  unfolding accepted_server_def by (intro reachable.intros)

text \<open>The theorem at the sample chain, for a second connection \<open>b\<close>: the third
  middleware is not invoked.\<close>

theorem middleware_abort_tears_down_witness:
  "runMiddlewares gate_chain (new_connection ''b'' idle_channel) = (Rejected (MiddlewareError ''denied''), 2)
   \<and> emitted (handleConnection gate_chain ''b'' idle_channel accepted_server)
       = [EvConnection 0, EvError (MiddlewareError ''denied'')]
   \<and> heap (handleConnection gate_chain ''b'' idle_channel accepted_server) 1
       = Some \<lparr>conn_id = ''b'', ws = idle_channel\<lparr>closed := True\<rparr>, conn_rooms = [],
                notified = [NDisconnect]\<rparr>
   \<and> EvConnection 1 \<notin> set (emitted (handleConnection gate_chain ''b'' idle_channel accepted_server))"
proof -
  have a: "(1::nat) < length gate_chain" by (simp add: gate_chain_def)
  have b: "\<forall>j<(1::nat). (gate_chain ! j) (new_connection ''b'' idle_channel) = CallsNext"
    by (simp add: gate_chain_def)
  have c: "(gate_chain ! 1) (new_connection ''b'' idle_channel) = CallsNextWith ''denied''"
    by (simp add: gate_chain_def)
  note t = middleware_abort_tears_down [OF accepted_reachable a b c]
  have n: "next_ref accepted_server = 1" by (simp add: accepted_eq)
  have e: "emitted accepted_server = [EvConnection 0]" by (simp add: accepted_eq)
  have 1: "runMiddlewares gate_chain (new_connection ''b'' idle_channel)
             = (Rejected (MiddlewareError ''denied''), 2)"
    using t [THEN conjunct1] by simp
  have 2: "emitted (handleConnection gate_chain ''b'' idle_channel accepted_server)
             = [EvConnection 0, EvError (MiddlewareError ''denied'')]"
    using t [THEN conjunct2, THEN conjunct2, THEN conjunct1] by (simp add: e)
  have 3: "heap (handleConnection gate_chain ''b'' idle_channel accepted_server) 1
       = Some \<lparr>conn_id = ''b'', ws = idle_channel\<lparr>closed := True\<rparr>, conn_rooms = [],
                notified = [NDisconnect]\<rparr>"
    using t [THEN conjunct2, THEN conjunct2, THEN conjunct2, THEN conjunct1] by (simp only: n)
  have 4: "EvConnection 1 \<notin> set (emitted (handleConnection gate_chain ''b'' idle_channel accepted_server))"
    using t [THEN conjunct2, THEN conjunct2, THEN conjunct2, THEN conjunct2] by (simp add: n)
  from 1 2 3 4 show ?thesis by (intro conjI)
qed

section \<open>Client: reconnection\<close>

lemmas client_eval =
  client_handleDisconnection_def reconnect_timer_fires_def attemptReconnection_def connect_def
  this_emit_def client_emit_def passed_to_listeners_def Let_def

lemma flaky_eq: "flaky_client =
  \<lparr>state = CONNECTING, transport = Some 0, sockets_opened = 1, url_ok = True,
   reconnection = True, reconnectionAttempts = 2, reconnectionDelay = 100, timeout_ms = 20000,
   reconnectAttempts = 0, reconnectTimer = None, messageQueue = [], wire = [],
   delivered = [(''connecting'', [])]\<rparr>"
  by (simp add: flaky_client_def flaky_options_def new_client_def or_default_def client_eval)

lemma invalid_reconnect_failed: "\<not> isValidEventName ''reconnect_failed''"
  by (simp add: isValidEventName_def reservedEvents_def)

text \<open>
  C5 says that this client ends with exactly one \<open>reconnect_failed\<close> notification after
  its two \<open>reconnecting\<close> ones. Evaluated on the code: the two \<open>reconnecting\<close>
  notifications (attempts 1 and 2) are delivered and the state ends \<open>disconnected\<close>, but
  the third close makes \<open>handleDisconnection\<close> call \<open>this.emit('reconnect_failed')\<close>,
  which is not among the names \<open>emit\<close> passes to the listeners and is a reserved name:
  the call raises "Invalid event name" and nothing is delivered.
\<close>

theorem reconnect_failed_raises_instead:
  "client_run always_closed flaky_client =
     (Some (InvalidEventName ''reconnect_failed''),
      \<lparr>state = DISCONNECTED, transport = None, sockets_opened = 3, url_ok = True,
       reconnection = True, reconnectionAttempts = 2, reconnectionDelay = 100, timeout_ms = 20000,
       reconnectAttempts = 2, reconnectTimer = Some 200, messageQueue = [], wire = [],
       delivered = [(''connecting'', []), (''disconnect'', [JStr ''Connection closed'']),
                    (''reconnecting'', [JNum 1]),
                    (''connecting'', []), (''disconnect'', [JStr ''Connection closed'']),
                    (''reconnecting'', [JNum 2]),
                    (''connecting'', []), (''disconnect'', [JStr ''Connection closed''])]\<rparr>)
   \<and> (''reconnect_failed'', []) \<notin> set (delivered (snd (client_run always_closed flaky_client)))"
  by (simp add: always_closed_def flaky_eq client_eval invalid_reconnect_failed)

section \<open>Client: queue and connect\<close>

lemma serializeMessage_nonempty: "serializeMessage m \<noteq> []"
  by (simp add: serializeMessage_def message_object_def)

lemma valid_not_passed: "isValidEventName ev \<Longrightarrow> ev \<notin> set passed_to_listeners"
  by (auto simp: isValidEventName_def reservedEvents_def passed_to_listeners_def split: if_splits)

lemma flush_all:
  "state c = CONNECTED \<Longrightarrow> transport c = Some w \<Longrightarrow> \<forall>m\<in>set (messageQueue c). m \<noteq> [] \<Longrightarrow>
     flushMessageQueue c = c\<lparr>messageQueue := [], wire := wire c @ map (Pair w) (messageQueue c)\<rparr>"
proof (induction "messageQueue c" arbitrary: c)
  case Nil
  then have "messageQueue c = []" by simp
  then show ?case by (subst flushMessageQueue.simps) simp
next
  case (Cons m rest)
  from Cons.hyps(2) have q: "messageQueue c = m # rest" by simp
  with Cons.prems have m: "m \<noteq> []" by simp
  let ?c = "c\<lparr>messageQueue := rest, wire := wire c @ [(w, m)]\<rparr>"
  have "flushMessageQueue ?c = ?c\<lparr>messageQueue := [], wire := wire ?c @ map (Pair w) (messageQueue ?c)\<rparr>"
    using Cons.prems q by (intro Cons.hyps(1)) simp_all
  moreover have "flushMessageQueue c = flushMessageQueue ?c"
    using Cons.prems q m by (subst flushMessageQueue.simps) simp
  ultimately show ?case using q by simp
qed

lemma flush_frame:
  "set (messageQueue (flushMessageQueue c)) \<subseteq> set (messageQueue c)
   \<and> delivered (flushMessageQueue c) = delivered c"
proof (induction c rule: flushMessageQueue.induct)
  case (1 c)
  show ?case
  proof (cases "messageQueue c")
    case Nil
    then show ?thesis by (subst (1 2) flushMessageQueue.simps) simp
  next
    case (Cons m rest)
    show ?thesis
    proof (cases "transport c")
      case None
      with Cons show ?thesis by (subst (1 2) flushMessageQueue.simps) simp
    next
      case (Some w)
      show ?thesis
      proof (cases "state c = CONNECTED")
        case False
        with Cons Some show ?thesis by (subst (1 2) flushMessageQueue.simps) simp
      next
        case True
        let ?c = "if m \<noteq> [] then c\<lparr>messageQueue := rest, wire := wire c @ [(w, m)]\<rparr>
                  else c\<lparr>messageQueue := rest\<rparr>"
        have eq: "flushMessageQueue c = flushMessageQueue ?c"
          using Cons Some True by (subst flushMessageQueue.simps) simp
        have "set (messageQueue (flushMessageQueue ?c)) \<subseteq> set (messageQueue ?c)
              \<and> delivered (flushMessageQueue ?c) = delivered ?c"
          using Cons Some True by (intro "1.IH") auto
        with eq Cons show ?thesis by auto
      qed
    qed
  qed
qed

lemma queue_nonempty_iff: "queue_nonempty c = (\<forall>m\<in>set (messageQueue c). m \<noteq> [])"
  by (simp add: queue_nonempty_def list_all_iff)

lemma only_passed_iff:
  "only_passed c = (\<forall>ev args. (ev, args) \<in> set (delivered c) \<longrightarrow> ev \<in> set passed_to_listeners)"
  by (auto simp: only_passed_def list_all_iff)

lemma client_ok_iff:
  "client_ok c = ((\<forall>m\<in>set (messageQueue c). m \<noteq> [])
      \<and> (\<forall>ev args. (ev, args) \<in> set (delivered c) \<longrightarrow> ev \<in> set passed_to_listeners))"
  by (simp add: client_ok_def queue_nonempty_iff only_passed_iff)

lemma client_ok_emit: "client_ok c \<Longrightarrow> client_ok (snd (client_emit ev args i now c))"
  by (auto simp: client_ok_iff client_emit_def Let_def serializeMessage_nonempty split: option.splits)

lemma client_ok_this_emit: "client_ok c \<Longrightarrow> client_ok (snd (this_emit ev args c))"
  by (simp add: this_emit_def client_ok_emit)

lemma client_ok_fields:
  "client_ok (c\<lparr>state := a\<rparr>) = client_ok c"
  "client_ok (c\<lparr>transport := b\<rparr>) = client_ok c"
  "client_ok (c\<lparr>sockets_opened := d\<rparr>) = client_ok c"
  "client_ok (c\<lparr>reconnection := e\<rparr>) = client_ok c"
  "client_ok (c\<lparr>reconnectAttempts := f\<rparr>) = client_ok c"
  "client_ok (c\<lparr>reconnectTimer := g\<rparr>) = client_ok c"
  by (simp_all add: client_ok_iff)

lemma client_ok_connect: "client_ok c \<Longrightarrow> client_ok (snd (connect c))"
  by (simp add: connect_def Let_def client_ok_fields client_ok_this_emit)

lemma client_ok_flush: "client_ok c \<Longrightarrow> client_ok (flushMessageQueue c)"
  using flush_frame [of c] by (auto simp: client_ok_iff)

lemma client_ok_on_open: "client_ok c \<Longrightarrow> client_ok (on_open c)"
  by (simp add: on_open_def client_ok_flush client_ok_this_emit client_ok_fields)

lemma client_ok_attempt: "client_ok c \<Longrightarrow> client_ok (attemptReconnection c)"
  by (simp add: attemptReconnection_def Let_def client_ok_fields client_ok_this_emit)

lemma client_ok_closed: "client_ok c \<Longrightarrow> client_ok (snd (client_handleDisconnection code reason c))"
  by (simp add: client_handleDisconnection_def Let_def client_ok_fields client_ok_this_emit
      client_ok_attempt)

lemma client_ok_timer: "client_ok c \<Longrightarrow> client_ok (snd (reconnect_timer_fires c))"
proof -
  assume a: "client_ok c"
  obtain p c1 where pc: "connect c = (p, c1)" by (cases "connect c")
  with client_ok_connect [OF a] have "client_ok c1" by simp
  with pc show ?thesis
    by (cases p) (simp_all add: reconnect_timer_fires_def client_ok_this_emit)
qed

lemma client_ok_disconnect: "client_ok c \<Longrightarrow> client_ok (client_disconnect c)"
  by (simp add: client_disconnect_def client_ok_fields client_ok_this_emit)

lemma client_ok_step: "client_ok c \<Longrightarrow> client_ok (snd (client_step i c))"
  by (cases i) (simp_all add: client_ok_connect client_ok_disconnect client_ok_emit
      client_ok_on_open client_ok_closed client_ok_timer)

lemma client_ok_new: "client_ok (new_client valid_url options)"
proof -
  let ?c = "\<lparr>state = DISCONNECTED, transport = None, sockets_opened = 0, url_ok = valid_url,
                reconnection = (opt_reconnection options \<noteq> Some False),
                reconnectionAttempts = or_default (opt_reconnectionAttempts options) 5,
                reconnectionDelay = or_default (opt_reconnectionDelay options) 1000,
                timeout_ms = or_default (opt_timeout options) 20000,
                reconnectAttempts = 0, reconnectTimer = None, messageQueue = [], wire = [],
                delivered = []\<rparr>"
  have "client_ok ?c" by (simp add: client_ok_iff)
  then have "client_ok (snd (connect ?c))" by (rule client_ok_connect)
  with \<open>client_ok ?c\<close> show ?thesis by (simp add: new_client_def Let_def)
qed

lemma reachable_client_ok: "client_reachable c \<Longrightarrow> client_ok c"
  by (induction rule: client_reachable.induct) (simp_all add: client_ok_new client_ok_step)

text \<open>No run of the client ever hands \<open>reconnect_failed\<close> to a listener.\<close>

lemma reconnect_failed_never_delivered:
  "client_reachable c \<Longrightarrow> (''reconnect_failed'', args) \<notin> set (delivered c)"
proof
  assume r: "client_reachable c" and d: "(''reconnect_failed'', args) \<in> set (delivered c)"
  from reachable_client_ok [OF r] d have "''reconnect_failed'' \<in> set passed_to_listeners"
    unfolding client_ok_iff by blast
  then show False by (simp add: passed_to_listeners_def)
qed

text \<open>Nothing but an emit of a valid name touches the queue, and nothing is sent while
  the client is not connected.\<close>

lemma emit_not_sent:
  "\<not> isValidEventName ev \<Longrightarrow>
     messageQueue (snd (client_emit ev args i now c)) = messageQueue c
     \<and> wire (snd (client_emit ev args i now c)) = wire c
     \<and> state (snd (client_emit ev args i now c)) = state c
     \<and> transport (snd (client_emit ev args i now c)) = transport c"
  by (simp add: client_emit_def)

lemma reserved_invalid:
  "\<not> isValidEventName ''connecting''" "\<not> isValidEventName ''connect''"
  "\<not> isValidEventName ''disconnect''" "\<not> isValidEventName ''error''"
  "\<not> isValidEventName ''reconnecting''" "\<not> isValidEventName ''reconnect_failed''"
  by (simp_all add: isValidEventName_def reservedEvents_def)

lemma this_emit_frame:
  "\<not> isValidEventName ev \<Longrightarrow>
     messageQueue (snd (this_emit ev args c)) = messageQueue c
     \<and> wire (snd (this_emit ev args c)) = wire c
     \<and> state (snd (this_emit ev args c)) = state c
     \<and> transport (snd (this_emit ev args c)) = transport c"
  unfolding this_emit_def by (rule emit_not_sent)

lemmas this_emit_keeps =
  this_emit_frame [OF reserved_invalid(1)] this_emit_frame [OF reserved_invalid(2)]
  this_emit_frame [OF reserved_invalid(3)] this_emit_frame [OF reserved_invalid(4)]
  this_emit_frame [OF reserved_invalid(5)] this_emit_frame [OF reserved_invalid(6)]

lemma connect_keeps:
  "state c \<noteq> CONNECTED \<Longrightarrow>
     messageQueue (snd (connect c)) = messageQueue c \<and> wire (snd (connect c)) = wire c
     \<and> state (snd (connect c)) \<noteq> CONNECTED"
  by (simp add: connect_def Let_def this_emit_keeps)

lemma attempt_keeps:
  "messageQueue (attemptReconnection c) = messageQueue c \<and> wire (attemptReconnection c) = wire c
     \<and> state (attemptReconnection c) = RECONNECTING"
  by (simp add: attemptReconnection_def Let_def this_emit_keeps)

lemma closed_keeps:
  "messageQueue (snd (client_handleDisconnection code reason c)) = messageQueue c
     \<and> wire (snd (client_handleDisconnection code reason c)) = wire c
     \<and> state (snd (client_handleDisconnection code reason c)) \<noteq> CONNECTED"
  by (simp add: client_handleDisconnection_def Let_def this_emit_keeps attempt_keeps)

lemma timer_keeps:
  assumes "state c \<noteq> CONNECTED"
  shows "messageQueue (snd (reconnect_timer_fires c)) = messageQueue c
     \<and> wire (snd (reconnect_timer_fires c)) = wire c
     \<and> state (snd (reconnect_timer_fires c)) \<noteq> CONNECTED"
proof -
  obtain p c1 where pc: "connect c = (p, c1)" by (cases "connect c")
  with connect_keeps [OF assms] have k: "messageQueue c1 = messageQueue c" "wire c1 = wire c"
      "state c1 \<noteq> CONNECTED" by simp_all
  show ?thesis
    using pc k by (cases p) (simp_all add: reconnect_timer_fires_def this_emit_keeps)
qed

lemma disconnect_keeps:
  "messageQueue (client_disconnect c) = messageQueue c \<and> wire (client_disconnect c) = wire c
     \<and> state (client_disconnect c) \<noteq> CONNECTED"
  by (simp add: client_disconnect_def this_emit_keeps)

lemma emit_keeps:
  assumes "state c \<noteq> CONNECTED"
  shows "messageQueue (snd (client_emit ev args i now c)) = messageQueue c @ queued_by [Emits ev args i now]
     \<and> wire (snd (client_emit ev args i now c)) = wire c
     \<and> state (snd (client_emit ev args i now c)) \<noteq> CONNECTED"
proof (cases "isValidEventName ev")
  case True
  then have "ev \<notin> set passed_to_listeners" by (rule valid_not_passed)
  with True assms show ?thesis
    by (simp add: client_emit_def Let_def split: option.splits)
next
  case False
  with emit_not_sent [OF False] assms show ?thesis by simp
qed

lemma step_keeps:
  assumes "state c \<noteq> CONNECTED" and "i \<noteq> TransportOpens"
  shows "messageQueue (snd (client_step i c)) = messageQueue c @ queued_by [i]
     \<and> wire (snd (client_step i c)) = wire c
     \<and> state (snd (client_step i c)) \<noteq> CONNECTED"
proof (cases i)
  case Connects
  with connect_keeps [OF assms(1)] show ?thesis by simp
next
  case Disconnects
  with disconnect_keeps [of c] show ?thesis by simp
next
  case (Emits ev args fresh_id now)
  with emit_keeps [OF assms(1), of ev args fresh_id now] show ?thesis by simp
next
  case TransportOpens
  with assms(2) show ?thesis by simp
next
  case (TransportCloses code reason)
  with closed_keeps [of code reason c] show ?thesis by simp
next
  case TimerFires
  with timer_keeps [OF assms(1)] show ?thesis by simp
qed

lemma queued_by_Cons: "queued_by (i # rest) = queued_by [i] @ queued_by rest"
  by (cases i) simp_all

lemma after_keeps:
  "state c \<noteq> CONNECTED \<Longrightarrow> TransportOpens \<notin> set ins \<Longrightarrow>
     messageQueue (client_after ins c) = messageQueue c @ queued_by ins
     \<and> wire (client_after ins c) = wire c
     \<and> state (client_after ins c) \<noteq> CONNECTED"
proof (induction ins arbitrary: c)
  case Nil
  then show ?case by (simp add: client_after_def)
next
  case (Cons i rest)
  from Cons.prems have i: "i \<noteq> TransportOpens" and r: "TransportOpens \<notin> set rest" by auto
  note s = step_keeps [OF Cons.prems(1) i]
  from s have st: "state (snd (client_step i c)) \<noteq> CONNECTED" by simp
  have unfold: "client_after (i # rest) c = client_after rest (snd (client_step i c))"
    by (simp add: client_after_def)
  from Cons.IH [OF st r] s show ?case
    unfolding unfold by (simp add: queued_by_Cons [of i rest])
qed

lemma reachable_after: "client_reachable c \<Longrightarrow> client_reachable (client_after ins c)"
proof (induction ins arbitrary: c)
  case Nil
  then show ?case by (simp add: client_after_def)
next
  case (Cons i rest)
  from Cons.prems have "client_reachable (snd (client_step i c))" by (rule c_step)
  from Cons.IH [OF this] show ?case by (simp add: client_after_def)
qed


lemma emit_queues:
  "isValidEventName ev \<Longrightarrow> state c \<noteq> CONNECTED \<Longrightarrow>
     client_emit ev args fresh_id now c =
       (None, c\<lparr>messageQueue := messageQueue c @
            [serializeMessage \<lparr>event = ev, data = JArr args, msg_id = Some fresh_id,
                               timestamp = Some now\<rparr>]\<rparr>)"
  by (auto simp: client_emit_def Let_def valid_not_passed split: option.splits)

lemma on_open_flushes:
  assumes "client_reachable c" and w: "transport c = Some w"
  shows "on_open c = c\<lparr>state := CONNECTED, reconnectAttempts := 0,
                        delivered := delivered c @ [(''connect'', [])],
                        messageQueue := [],
                        wire := wire c @ map (Pair w) (messageQueue c)\<rparr>"
proof -
  have ok: "\<forall>m\<in>set (messageQueue c). m \<noteq> []"
    using reachable_client_ok [OF assms(1)] by (simp add: client_ok_iff)
  let ?c = "c\<lparr>state := CONNECTED, reconnectAttempts := 0,
               delivered := delivered c @ [(''connect'', [])]\<rparr>"
  have e: "snd (this_emit ''connect'' [] (c\<lparr>state := CONNECTED, reconnectAttempts := 0\<rparr>)) = ?c"
    by (simp add: this_emit_def client_emit_def passed_to_listeners_def)
  have "flushMessageQueue ?c = ?c\<lparr>messageQueue := [], wire := wire ?c @ map (Pair w) (messageQueue ?c)\<rparr>"
    using w ok by (intro flush_all) simp_all
  then show ?thesis by (simp add: on_open_def e)
qed

text \<open>
  C8. In every reachable client state: an \<open>emit\<close> of a valid (application) event name
  while the state is not \<open>connected\<close> sends nothing and appends the encoded envelope to
  the end of the queue; when the transport opens, the client becomes \<open>connected\<close>,
  notifies \<open>connect\<close>, and sends every queued message exactly once, in the order of the
  queue, on the connection that opened, leaving the queue empty; and whatever happens
  between the emits and the open (connects, disconnects, transport closes, reconnect
  timers, further emits) sends nothing and keeps the queue, so that the open sends what
  was queued before followed by the envelopes of the emits in between, each once and in
  order.
\<close>

theorem queued_messages_flushed_in_order:
  assumes "client_reachable c"
  shows "(isValidEventName ev \<longrightarrow> state c \<noteq> CONNECTED \<longrightarrow>
            client_emit ev args fresh_id now c =
              (None, c\<lparr>messageQueue := messageQueue c @
                   [serializeMessage \<lparr>event = ev, data = JArr args, msg_id = Some fresh_id,
                                      timestamp = Some now\<rparr>]\<rparr>))
       \<and> (\<forall>w. transport c = Some w \<longrightarrow>
            on_open c = c\<lparr>state := CONNECTED, reconnectAttempts := 0,
                           delivered := delivered c @ [(''connect'', [])],
                           messageQueue := [],
                           wire := wire c @ map (Pair w) (messageQueue c)\<rparr>)
       \<and> (state c \<noteq> CONNECTED \<longrightarrow> TransportOpens \<notin> set ins \<longrightarrow>
              messageQueue (client_after ins c) = messageQueue c @ queued_by ins
            \<and> wire (client_after ins c) = wire c
            \<and> (\<forall>w. transport (client_after ins c) = Some w \<longrightarrow>
                   wire (on_open (client_after ins c))
                     = wire c @ map (Pair w) (messageQueue c @ queued_by ins)
                 \<and> messageQueue (on_open (client_after ins c)) = []
                 \<and> state (on_open (client_after ins c)) = CONNECTED))"
proof (intro conjI impI allI)
  assume "isValidEventName ev" and "state c \<noteq> CONNECTED"
  then show "client_emit ev args fresh_id now c =
              (None, c\<lparr>messageQueue := messageQueue c @
                   [serializeMessage \<lparr>event = ev, data = JArr args, msg_id = Some fresh_id,
                                      timestamp = Some now\<rparr>]\<rparr>)"
    by (rule emit_queues)
next
  fix w assume "transport c = Some w"
  with assms show "on_open c = c\<lparr>state := CONNECTED, reconnectAttempts := 0,
                           delivered := delivered c @ [(''connect'', [])],
                           messageQueue := [],
                           wire := wire c @ map (Pair w) (messageQueue c)\<rparr>"
    by (rule on_open_flushes)
next
  assume "state c \<noteq> CONNECTED" and "TransportOpens \<notin> set ins"
  then show "messageQueue (client_after ins c) = messageQueue c @ queued_by ins"
    using after_keeps by blast
next
  assume "state c \<noteq> CONNECTED" and "TransportOpens \<notin> set ins"
  then show "wire (client_after ins c) = wire c"
    using after_keeps by blast
next
  fix w
  assume s: "state c \<noteq> CONNECTED" and i: "TransportOpens \<notin> set ins"
    and w: "transport (client_after ins c) = Some w"
  note k = after_keeps [OF s i]
  have r: "client_reachable (client_after ins c)" using assms by (rule reachable_after)
  note o = on_open_flushes [OF r w]
  show "wire (on_open (client_after ins c)) = wire c @ map (Pair w) (messageQueue c @ queued_by ins)"
    unfolding o using k by simp
  show "messageQueue (on_open (client_after ins c)) = []"
    unfolding o by simp
  show "state (on_open (client_after ins c)) = CONNECTED"
    unfolding o by simp
qed

lemma valid_z: "isValidEventName ''z''"
  by (simp add: isValidEventName_def reservedEvents_def)

lemma valid_y: "isValidEventName ''y''"
  by (simp add: isValidEventName_def reservedEvents_def)

lemma queued_reachable: "client_reachable queued_client"
  unfolding queued_client_def flaky_client_def by (intro client_reachable.intros)

lemma queued_eq: "queued_client = flaky_client
  \<lparr>messageQueue :=
     [serializeMessage \<lparr>event = ''x'', data = JArr [JNum 1], msg_id = Some ''i1'', timestamp = Some 10\<rparr>,
      serializeMessage \<lparr>event = ''y'', data = JArr [], msg_id = Some ''i2'', timestamp = Some 11\<rparr>]\<rparr>"
  by (simp add: queued_client_def flaky_eq client_emit_def passed_to_listeners_def valid_x valid_y)

lemma manual_eq: "manual_client =
  \<lparr>state = DISCONNECTED, transport = None, sockets_opened = 0, url_ok = True,
   reconnection = True, reconnectionAttempts = 5, reconnectionDelay = 1000, timeout_ms = 20000,
   reconnectAttempts = 0, reconnectTimer = None, messageQueue = [], wire = [],
   delivered = []\<rparr>"
  by (simp add: manual_client_def manual_options_def new_client_def or_default_def)

lemma manual_reachable: "client_reachable manual_client"
  unfolding manual_client_def by (rule c_new)

lemma manual_transport: "transport (client_after emit_connect_emit manual_client) = Some 0"
  by (simp add: client_after_def emit_connect_emit_def manual_eq client_emit_def connect_def
      this_emit_def passed_to_listeners_def valid_x valid_y Let_def)

lemma manual_queued:
  "queued_by emit_connect_emit =
     [serializeMessage \<lparr>event = ''x'', data = JArr [JNum 1], msg_id = Some ''i1'', timestamp = Some 10\<rparr>,
      serializeMessage \<lparr>event = ''y'', data = JArr [], msg_id = Some ''i2'', timestamp = Some 11\<rparr>]"
  by (simp add: emit_connect_emit_def valid_x valid_y)

text \<open>The theorem at two clients. The one that queued \<open>x\<close> and then \<open>y\<close> while
  connecting: a third emit is queued behind them, and the open sends \<open>x\<close>, then \<open>y\<close>. The
  one built without \<open>autoConnect\<close> that emits \<open>x\<close> while disconnected, connects and emits
  \<open>y\<close>: nothing is sent before the open, and the open sends \<open>x\<close>, then \<open>y\<close>.\<close>

theorem queued_messages_flushed_in_order_witness:
  "client_reachable queued_client
   \<and> state queued_client = CONNECTING
   \<and> transport queued_client = Some 0
   \<and> messageQueue (snd (client_emit ''z'' [] ''i3'' 12 queued_client)) =
        [serializeMessage \<lparr>event = ''x'', data = JArr [JNum 1], msg_id = Some ''i1'', timestamp = Some 10\<rparr>,
         serializeMessage \<lparr>event = ''y'', data = JArr [], msg_id = Some ''i2'', timestamp = Some 11\<rparr>,
         serializeMessage \<lparr>event = ''z'', data = JArr [], msg_id = Some ''i3'', timestamp = Some 12\<rparr>]
   \<and> wire (snd (client_emit ''z'' [] ''i3'' 12 queued_client)) = []
   \<and> wire (on_open queued_client) =
        [(0, serializeMessage \<lparr>event = ''x'', data = JArr [JNum 1], msg_id = Some ''i1'', timestamp = Some 10\<rparr>),
         (0, serializeMessage \<lparr>event = ''y'', data = JArr [], msg_id = Some ''i2'', timestamp = Some 11\<rparr>)]
   \<and> messageQueue (on_open queued_client) = []
   \<and> state (on_open queued_client) = CONNECTED
   \<and> client_reachable manual_client
   \<and> state manual_client = DISCONNECTED
   \<and> messageQueue (client_after emit_connect_emit manual_client) =
        [serializeMessage \<lparr>event = ''x'', data = JArr [JNum 1], msg_id = Some ''i1'', timestamp = Some 10\<rparr>,
         serializeMessage \<lparr>event = ''y'', data = JArr [], msg_id = Some ''i2'', timestamp = Some 11\<rparr>]
   \<and> wire (client_after emit_connect_emit manual_client) = []
   \<and> wire (on_open (client_after emit_connect_emit manual_client)) =
        [(0, serializeMessage \<lparr>event = ''x'', data = JArr [JNum 1], msg_id = Some ''i1'', timestamp = Some 10\<rparr>),
         (0, serializeMessage \<lparr>event = ''y'', data = JArr [], msg_id = Some ''i2'', timestamp = Some 11\<rparr>)]
   \<and> messageQueue (on_open (client_after emit_connect_emit manual_client)) = []
   \<and> state (on_open (client_after emit_connect_emit manual_client)) = CONNECTED"
proof -
  note t = queued_messages_flushed_in_order [OF queued_reachable, of "''z''" "[]" "''i3''" 12]
  have st: "state queued_client = CONNECTING" by (simp add: queued_eq flaky_eq)
  have tr: "transport queued_client = Some 0" by (simp add: queued_eq flaky_eq)
  have ne: "state queued_client \<noteq> CONNECTED" by (simp add: st)
  note e = t [THEN conjunct1, rule_format, OF valid_z ne]
  note o = t [THEN conjunct2, THEN conjunct1, rule_format, OF tr]
  have 1: "messageQueue (snd (client_emit ''z'' [] ''i3'' 12 queued_client)) =
        [serializeMessage \<lparr>event = ''x'', data = JArr [JNum 1], msg_id = Some ''i1'', timestamp = Some 10\<rparr>,
         serializeMessage \<lparr>event = ''y'', data = JArr [], msg_id = Some ''i2'', timestamp = Some 11\<rparr>,
         serializeMessage \<lparr>event = ''z'', data = JArr [], msg_id = Some ''i3'', timestamp = Some 12\<rparr>]"
    unfolding e by (simp add: queued_eq)
  have 2: "wire (snd (client_emit ''z'' [] ''i3'' 12 queued_client)) = []"
    unfolding e by (simp add: queued_eq flaky_eq)
  have 3: "wire (on_open queued_client) =
        [(0, serializeMessage \<lparr>event = ''x'', data = JArr [JNum 1], msg_id = Some ''i1'', timestamp = Some 10\<rparr>),
         (0, serializeMessage \<lparr>event = ''y'', data = JArr [], msg_id = Some ''i2'', timestamp = Some 11\<rparr>)]"
    unfolding o by (simp add: queued_eq flaky_eq)
  have 4: "messageQueue (on_open queued_client) = []"
    unfolding o by simp
  have 5: "state (on_open queued_client) = CONNECTED"
    unfolding o by simp
  have ms: "state manual_client = DISCONNECTED" by (simp add: manual_eq)
  have mne: "state manual_client \<noteq> CONNECTED" by (simp add: ms)
  have noopen: "TransportOpens \<notin> set emit_connect_emit" by (simp add: emit_connect_emit_def)
  note u = queued_messages_flushed_in_order [OF manual_reachable, of _ _ _ _ emit_connect_emit,
      THEN conjunct2, THEN conjunct2, rule_format, OF mne noopen]
  have 6: "messageQueue (client_after emit_connect_emit manual_client) =
        [serializeMessage \<lparr>event = ''x'', data = JArr [JNum 1], msg_id = Some ''i1'', timestamp = Some 10\<rparr>,
         serializeMessage \<lparr>event = ''y'', data = JArr [], msg_id = Some ''i2'', timestamp = Some 11\<rparr>]"
    using u [THEN conjunct1] by (simp add: manual_eq manual_queued)
  have 7: "wire (client_after emit_connect_emit manual_client) = []"
    using u [THEN conjunct2, THEN conjunct1] by (simp add: manual_eq)
  note v = u [THEN conjunct2, THEN conjunct2, rule_format, OF manual_transport]
  have 8: "wire (on_open (client_after emit_connect_emit manual_client)) =
        [(0, serializeMessage \<lparr>event = ''x'', data = JArr [JNum 1], msg_id = Some ''i1'', timestamp = Some 10\<rparr>),
         (0, serializeMessage \<lparr>event = ''y'', data = JArr [], msg_id = Some ''i2'', timestamp = Some 11\<rparr>)]"
    using v [THEN conjunct1] by (simp add: manual_eq manual_queued)
  have 9: "messageQueue (on_open (client_after emit_connect_emit manual_client)) = []"
    by (rule v [THEN conjunct2, THEN conjunct1])
  have 10: "state (on_open (client_after emit_connect_emit manual_client)) = CONNECTED"
    by (rule v [THEN conjunct2, THEN conjunct2])
  from queued_reachable st tr 1 2 3 4 5 manual_reachable ms 6 7 8 9 10 show ?thesis
    by (intro conjI)
qed

text \<open>
  C10. \<open>connect\<close> on a client whose state is \<open>connected\<close> or \<open>connecting\<close> resolves at
  once and leaves the client as it was: no new transport connection, no notification, the
  same state, attempt counter and queue.
\<close>

theorem connect_when_connected_is_noop:
  "state c = CONNECTED \<or> state c = CONNECTING \<Longrightarrow> connect c = (Resolved, c)"
  by (simp add: connect_def)


text \<open>The theorem at the client that is connecting after its construction.\<close>

theorem connect_when_connected_is_noop_witness:
  "state flaky_client = CONNECTING \<and> connect flaky_client = (Resolved, flaky_client)"
proof -
  have st: "state flaky_client = CONNECTING" by (simp add: flaky_eq)
  then have "state flaky_client = CONNECTED \<or> state flaky_client = CONNECTING" by simp
  from st connect_when_connected_is_noop [OF this] show ?thesis by (rule conjI)
qed

end
